theory Spec2Isabelle
  imports Complex_Main "HOL-Library.Word"
begin

section \<open>Text and JavaScript containers\<close>

text \<open>
  A JavaScript string is modelled as a \<^typ>\<open>string\<close>, one \<^typ>\<open>char\<close> per character.
  The model is exact for ASCII text, which is what the game writes into its logs and
  tokens; white space is the ASCII white space and case mapping is the one of the ASCII
  letters. A file on disk is a \<^typ>\<open>string option\<close>: \<open>None\<close> when \<open>existsSync\<close>
  is false, the decoded content otherwise.
\<close>

definition isWhiteSpace :: "char \<Rightarrow> bool" where
  "isWhiteSpace c = (c \<in> set [CHR '' '', CHR 0x09, CHR 0x0A, CHR 0x0B, CHR 0x0C, CHR 0x0D])"

definition isDigit :: "char \<Rightarrow> bool" where
  "isDigit c = (c \<in> set ''0123456789'')"

definition isUpper :: "char \<Rightarrow> bool" where
  "isUpper c = (c \<in> set ''ABCDEFGHIJKLMNOPQRSTUVWXYZ'')"

definition isLower :: "char \<Rightarrow> bool" where
  "isLower c = (c \<in> set ''abcdefghijklmnopqrstuvwxyz'')"

text \<open>\<open>String.prototype.trim\<close>.\<close>

definition trim :: "string \<Rightarrow> string" where
  "trim s = rev (dropWhile isWhiteSpace (rev (dropWhile isWhiteSpace s)))"

text \<open>\<open>s.split(c)\<close> for a one-character separator: never empty, \<open>''''.split(c) = ['''']\<close>.\<close>

fun split :: "char \<Rightarrow> string \<Rightarrow> string list" where
  "split c [] = [[]]"
| "split c (x # xs) =
     (if x = c then [] # split c xs
      else (case split c xs of [] \<Rightarrow> [[x]] | w # ws \<Rightarrow> (x # w) # ws))"

text \<open>\<open>s.startsWith(p)\<close>, and on buffers the test that \<open>p\<close> occurs at the front.\<close>

definition startsWith :: "'a list \<Rightarrow> 'a list \<Rightarrow> bool" where
  "startsWith s p = (take (length p) s = p)"

text \<open>\<open>s.replace(p, '''')\<close> with a string pattern: the first occurrence is removed.\<close>

fun removeFirst :: "string \<Rightarrow> string \<Rightarrow> string" where
  "removeFirst p [] = []"
| "removeFirst p (x # xs) =
     (if startsWith (x # xs) p then drop (length p) (x # xs) else x # removeFirst p xs)"

text \<open>
  A JavaScript \<open>Map\<close> is an association list in insertion order: \<open>set\<close> on a key that is
  present keeps its position, a new key goes to the end.
\<close>

type_synonym ('k, 'v) jsmap = "('k \<times> 'v) list"

definition mapHas :: "('k, 'v) jsmap \<Rightarrow> 'k \<Rightarrow> bool" where
  "mapHas m k = (k \<in> set (map fst m))"

fun mapSet :: "('k, 'v) jsmap \<Rightarrow> 'k \<Rightarrow> 'v \<Rightarrow> ('k, 'v) jsmap" where
  "mapSet [] k v = [(k, v)]"
| "mapSet ((k', v') # m) k v = (if k' = k then (k, v) # m else (k', v') # mapSet m k v)"

definition mapGet :: "('k, 'v) jsmap \<Rightarrow> 'k \<Rightarrow> 'v option" where
  "mapGet m k = map_of m k"

text \<open>
  \<open>s.indexOf(p, from)\<close> on strings and on buffers, for a pattern that is not empty (every
  pattern of the program is a constant): the first position at or after \<open>from\<close> where
  \<open>p\<close> occurs, \<open>None\<close> for -1. \<open>searchAt p pos xs\<close> scans \<open>xs\<close>, whose first element
  has the position \<open>pos\<close>.
\<close>

fun searchAt :: "'a list \<Rightarrow> nat \<Rightarrow> 'a list \<Rightarrow> nat option" where
  "searchAt p pos [] = None"
| "searchAt p pos (x # xs) = (if startsWith (x # xs) p then Some pos else searchAt p (Suc pos) xs)"

definition indexOf :: "'a list \<Rightarrow> 'a list \<Rightarrow> nat \<Rightarrow> nat option" where
  "indexOf xs p from = searchAt p from (drop from xs)"

text \<open>\<open>s.includes(p)\<close>.\<close>

definition stringIncludes :: "string \<Rightarrow> string \<Rightarrow> bool" where
  "stringIncludes s p = (indexOf s p 0 \<noteq> None)"

text \<open>\<open>s.endsWith(p)\<close>.\<close>

definition endsWith :: "string \<Rightarrow> string \<Rightarrow> bool" where
  "endsWith s p = (length p \<le> length s \<and> drop (length s - length p) s = p)"

text \<open>
  \<open>s.substring(a, b)\<close> and \<open>buffer.subarray(a, b)\<close> for \<open>a \<le> b\<close>, which holds at every
  call; both stop at the end of the data.
\<close>

definition substring :: "'a list \<Rightarrow> nat \<Rightarrow> nat \<Rightarrow> 'a list" where
  "substring s a b = take (b - a) (drop a s)"

text \<open>\<open>s.replace(/p$/, '''')\<close> for a literal \<open>p\<close>.\<close>

definition stripSuffix :: "string \<Rightarrow> string \<Rightarrow> string" where
  "stripSuffix p s = (if endsWith s p then take (length s - length p) s else s)"

text \<open>The elements of a list in the order in which they are first seen, after those of \<open>seen\<close>.\<close>

fun firstSeen :: "'a list \<Rightarrow> 'a list \<Rightarrow> 'a list" where
  "firstSeen seen [] = seen"
| "firstSeen seen (x # xs) = (if x \<in> set seen then firstSeen seen xs else firstSeen (seen @ [x]) xs)"

text \<open>\<open>[...new Set(xs)]\<close>: the elements in the order of their first occurrence.\<close>

definition uniqueInOrder :: "'a list \<Rightarrow> 'a list" where
  "uniqueInOrder xs = firstSeen [] xs"


section \<open>Player-index resolver (\<open>buildPlayerIdMap\<close>)\<close>

text \<open>The lines of a log file: \<open>content.trim().split('\n')\<close>.\<close>

definition fileLines :: "string \<Rightarrow> string list" where
  "fileLines content = split (CHR 0x0A) (trim content)"

text \<open>The cells of a line: \<open>line.split(',').map(v => v.trim())\<close>.\<close>

definition cells :: "string \<Rightarrow> string list" where
  "cells line = map trim (split (CHR '','') line)"

text \<open>
  One iteration of the loop over the data rows: rows with fewer than two cells are
  skipped, a name that the map does not have yet gets the map's size as its index.
\<close>

definition playerIdStep :: "(string, nat) jsmap \<Rightarrow> string \<Rightarrow> (string, nat) jsmap" where
  "playerIdStep latestTurn line =
     (let values = cells line in
      if length values < 2 then latestTurn
      else
        let civName = removeFirst ''CIVILIZATION_'' (values ! 1) in
        if \<not> mapHas latestTurn civName then mapSet latestTurn civName (length latestTurn)
        else latestTurn)"

definition buildPlayerIdMap :: "string option \<Rightarrow> (nat, string) jsmap" where
  "buildPlayerIdMap statsFile =
     (case statsFile of
        None \<Rightarrow> []
      | Some content \<Rightarrow>
          let lines = fileLines content in
          if length lines < 2 then []
          else
            let latestTurn = foldl playerIdStep [] (tl lines) in
            foldl (\<lambda>playerMap (civName, playerId). mapSet playerMap playerId civName) [] latestTurn)"

text \<open>
  The civilization names that the data rows of the statistics file list, in file order:
  the second cell of every row that has one, without its \<open>CIVILIZATION_\<close> part.
\<close>

definition rowCivNames :: "string \<Rightarrow> string list" where
  "rowCivNames content =
     map (\<lambda>line. removeFirst ''CIVILIZATION_'' (cells line ! 1))
       (filter (\<lambda>line. \<not> length (cells line) < 2) (tl (fileLines content)))"



text \<open>The loop body on a row that has a name: what \<open>playerIdStep\<close> does with the name.\<close>

definition nameStep :: "(string, nat) jsmap \<Rightarrow> string \<Rightarrow> (string, nat) jsmap" where
  "nameStep m n = (if \<not> mapHas m n then mapSet m n (length m) else m)"

text \<open>A statistics file whose five data rows list Rome, Egypt, Rome, China, Egypt.\<close>

definition statsExample :: string where
  "statsExample = ''Game Turn, Player'' @ [CHR 0x0A] @ ''1, CIVILIZATION_ROME, 3'' @ [CHR 0x0A]
     @ ''1, CIVILIZATION_EGYPT, 2'' @ [CHR 0x0A] @ ''2, CIVILIZATION_ROME, 3'' @ [CHR 0x0A]
     @ ''2, CIVILIZATION_CHINA, 1'' @ [CHR 0x0A] @ ''3, CIVILIZATION_EGYPT, 2'' @ [CHR 0x0A]"

section \<open>Numbers read from text\<close>

text \<open>
  A JavaScript number that \<open>parseInt\<close> returns is an \<^typ>\<open>int option\<close>, with \<open>None\<close> for
  \<open>NaN\<close>; one that \<open>parseFloat\<close> returns is a \<^typ>\<open>rat option\<close>, the decimal value that
  was read (its rounding to a double is not part of the model).
\<close>

definition digitValue :: "char \<Rightarrow> nat" where
  "digitValue c = of_char c - 48"

definition digitsValue :: "string \<Rightarrow> nat" where
  "digitsValue ds = foldl (\<lambda>a c. 10 * a + digitValue c) 0 ds"

text \<open>
  \<open>parseInt(s, 10)\<close>: leading white space, an optional sign, then the longest run of
  decimal digits; \<open>NaN\<close> when there is no digit.
\<close>

definition parseInt :: "string \<Rightarrow> int option" where
  "parseInt s =
     (let t = dropWhile isWhiteSpace s;
          neg = startsWith t ''-'';
          u = (if startsWith t ''-'' \<or> startsWith t ''+'' then tl t else t);
          ds = takeWhile isDigit u
      in if ds = [] then None
         else Some (if neg then - int (digitsValue ds) else int (digitsValue ds)))"

text \<open>
  \<open>parseFloat\<close> on a string of digits and dots, which is all that the pattern
  \<open>[\d.]+\<close> of its one caller lets through: the longest prefix that is a decimal literal
  (\<open>12\<close>, \<open>12.\<close>, \<open>12.5\<close>, \<open>.5\<close>), \<open>NaN\<close> when there is none.
\<close>

definition parseFloat :: "string \<Rightarrow> rat option" where
  "parseFloat s =
     (let ip = takeWhile isDigit s; r = drop (length ip) s in
      if startsWith r ''.'' then
        let fp = takeWhile isDigit (tl r) in
        if ip = [] \<and> fp = [] then None
        else Some (of_nat (digitsValue ip) + of_nat (digitsValue fp) / 10 ^ length fp)
      else if ip = [] then None
      else Some (of_nat (digitsValue ip)))"

text \<open>The strict equality \<open>===\<close> of two numbers: \<open>NaN\<close> equals nothing.\<close>

definition strictEq :: "'a option \<Rightarrow> 'a option \<Rightarrow> bool" where
  "strictEq a b = (a \<noteq> None \<and> a = b)"

text \<open>A number inside a template literal.\<close>

function showNat :: "nat \<Rightarrow> string" where
  "showNat n = (if n < 10 then [char_of (48 + n)] else showNat (n div 10) @ [char_of (48 + n mod 10)])"
  by pat_completeness auto
termination
  by (relation "measure id") auto

declare showNat.simps [simp del]

definition showNumber :: "int option \<Rightarrow> string" where
  "showNumber x =
     (case x of None \<Rightarrow> ''NaN''
      | Some i \<Rightarrow> if i < 0 then ''-'' @ showNat (nat (- i)) else showNat (nat i))"


section \<open>Diplomacy log (\<open>parseDiplomacy\<close>)\<close>

record DiplomaticRelation =
  fromCiv :: string
  toCiv :: string
  fromPlayerId :: "int option"
  toPlayerId :: int
  state :: string
  score :: "int option"
  threat :: "rat option"
  trust :: "rat option"

definition toUpperCase :: "char \<Rightarrow> char" where
  "toUpperCase c =
     (case map_of (zip ''abcdefghijklmnopqrstuvwxyz'' ''ABCDEFGHIJKLMNOPQRSTUVWXYZ'') c of
        Some u \<Rightarrow> u | None \<Rightarrow> c)"

definition toLowerCase :: "char \<Rightarrow> char" where
  "toLowerCase c =
     (case map_of (zip ''ABCDEFGHIJKLMNOPQRSTUVWXYZ'' ''abcdefghijklmnopqrstuvwxyz'') c of
        Some l \<Rightarrow> l | None \<Rightarrow> c)"

text \<open>\<open>w.charAt(0).toUpperCase() + w.slice(1).toLowerCase()\<close>.\<close>

definition capitalize :: "string \<Rightarrow> string" where
  "capitalize w = (case w of [] \<Rightarrow> [] | c # cs \<Rightarrow> toUpperCase c # map toLowerCase cs)"

text \<open>\<open>words.join(' ')\<close>.\<close>

fun joinSpace :: "string list \<Rightarrow> string" where
  "joinSpace [] = []"
| "joinSpace [w] = w"
| "joinSpace (w # ws) = w @ '' '' @ joinSpace ws"

definition formatCivName :: "string \<Rightarrow> string" where
  "formatCivName rawName = joinSpace (map capitalize (split (CHR ''_'') rawName))"

text \<open>\<open>playerMap.get(playerId) || `Player ${playerId}`\<close>: an empty name is falsy.\<close>

definition getCivName :: "int option \<Rightarrow> (nat, string) jsmap \<Rightarrow> string" where
  "getCivName playerId playerMap =
     (case (case playerId of None \<Rightarrow> None
            | Some i \<Rightarrow> if 0 \<le> i then mapGet playerMap (nat i) else None) of
        Some name \<Rightarrow> if name = [] then ''Player '' @ showNumber playerId else name
      | None \<Rightarrow> ''Player '' @ showNumber playerId)"

definition isWordChar :: "char \<Rightarrow> bool" where
  "isWordChar c = (isUpper c \<or> isLower c \<or> isDigit c \<or> c = CHR ''_'')"

definition isDigitOrDot :: "char \<Rightarrow> bool" where
  "isDigitOrDot c = (isDigit c \<or> c = CHR ''.'')"

text \<open>
  The pattern \<open>/(-?\d+):DIPLO_STATE_(\w+)/\<close> tried at the front of a string, and
  \<open>cellValue.match\<close> of it: the leftmost position where it matches. Each of its runs is
  greedy and is followed by a character outside the run, so there is one way to match
  at a position. The result is the two groups.
\<close>

definition matchStateAt :: "string \<Rightarrow> (string \<times> string) option" where
  "matchStateAt s =
     (let sign = (if startsWith s ''-'' then ''-'' else '''');
          ds = takeWhile isDigit (drop (length sign) s);
          r = drop (length sign + length ds) s;
          w = takeWhile isWordChar (drop (length '':DIPLO_STATE_'') r)
      in if ds \<noteq> [] \<and> startsWith r '':DIPLO_STATE_'' \<and> w \<noteq> [] then Some (sign @ ds, w)
         else None)"

fun matchState :: "string \<Rightarrow> (string \<times> string) option" where
  "matchState [] = None"
| "matchState (c # cs) =
     (case matchStateAt (c # cs) of Some g \<Rightarrow> Some g | None \<Rightarrow> matchState cs)"

text \<open>The pattern \<open>/([\d.]+):(\d+):([\d.]+)/\<close> in the same way; the result is the three groups.\<close>

definition matchThreatAt :: "string \<Rightarrow> (string \<times> string \<times> string) option" where
  "matchThreatAt s =
     (let g1 = takeWhile isDigitOrDot s;
          r1 = drop (length g1) s;
          g2 = takeWhile isDigit (tl r1);
          r2 = drop (length g2) (tl r1);
          g3 = takeWhile isDigitOrDot (tl r2)
      in if g1 \<noteq> [] \<and> startsWith r1 '':'' \<and> g2 \<noteq> [] \<and> startsWith r2 '':'' \<and> g3 \<noteq> []
         then Some (g1, g2, g3) else None)"

fun matchThreat :: "string \<Rightarrow> (string \<times> string \<times> string) option" where
  "matchThreat [] = None"
| "matchThreat (c # cs) =
     (case matchThreatAt (c # cs) of Some g \<Rightarrow> Some g | None \<Rightarrow> matchThreat cs)"

text \<open>
  First pass, the inner loop over the columns from 4 on of one row: the relation that
  the cell of column \<open>col\<close> adds, if any.
\<close>

definition cellRelation ::
  "(nat, string) jsmap \<Rightarrow> int option \<Rightarrow> string list \<Rightarrow> nat \<Rightarrow> DiplomaticRelation list" where
  "cellRelation playerMap fromId parts col =
     (let cellValue = parts ! col in
      if cellValue = [] then []
      else case matchState cellValue of
        None \<Rightarrow> []
      | Some (g1, g2) \<Rightarrow>
          let toId = int col - 4 in
          if strictEq fromId (Some toId) then []
          else [\<lparr> fromCiv = formatCivName (getCivName fromId playerMap),
                  toCiv = formatCivName (getCivName (Some toId) playerMap),
                  fromPlayerId = fromId, toPlayerId = toId,
                  state = g2, score = parseInt g1,
                  threat = Some 0, trust = Some 0 \<rparr>])"

text \<open>First pass, one line: short rows and the rows of threat and trust are skipped.\<close>

definition rowRelations :: "(nat, string) jsmap \<Rightarrow> string \<Rightarrow> DiplomaticRelation list" where
  "rowRelations playerMap line =
     (let parts = cells line in
      if length parts < 4 then []
      else if parts ! 2 = ''Threat and Trust'' then []
      else concat (map (cellRelation playerMap (parseInt (parts ! 1)) parts) [4..<length parts]))"

text \<open>
  Second pass. A cell of a threat-and-trust row that matches the pattern is an update
  \<open>(fromPlayerId, toPlayerId, threat, trust)\<close>; the turn of the row is not read.
\<close>

type_synonym threatUpdate = "int option \<times> int \<times> rat option \<times> rat option"

definition cellUpdate :: "int option \<Rightarrow> string list \<Rightarrow> nat \<Rightarrow> threatUpdate list" where
  "cellUpdate fromId parts col =
     (let cellValue = parts ! col in
      if cellValue = [] then []
      else case matchThreat cellValue of
        None \<Rightarrow> []
      | Some (g1, g2, g3) \<Rightarrow> [(fromId, int col - 4, parseFloat g1, parseFloat g3)])"

definition rowUpdates :: "string \<Rightarrow> threatUpdate list" where
  "rowUpdates line =
     (let parts = cells line in
      if length parts < 4 \<or> parts ! 2 \<noteq> ''Threat and Trust'' then []
      else concat (map (cellUpdate (parseInt (parts ! 1)) parts) [4..<length parts]))"

text \<open>
  \<open>relations.find(r => r.fromPlayerId === fromPlayerId && r.toPlayerId === toPlayerId)\<close>
  and the assignment to the relation found: the first relation of the list with these
  two ids gets the values, the others stay as they are.
\<close>

fun applyUpdate :: "DiplomaticRelation list \<Rightarrow> threatUpdate \<Rightarrow> DiplomaticRelation list" where
  "applyUpdate [] u = []"
| "applyUpdate (r # rs) (fromId, toId, th, tr) =
     (if strictEq (fromPlayerId r) fromId \<and> toPlayerId r = toId
      then r\<lparr> threat := th, trust := tr \<rparr> # rs
      else r # applyUpdate rs (fromId, toId, th, tr))"

definition threatUpdates :: "string \<Rightarrow> threatUpdate list" where
  "threatUpdates content = concat (map rowUpdates (tl (fileLines content)))"

definition parseDiplomacy :: "string option \<Rightarrow> string option \<Rightarrow> DiplomaticRelation list" where
  "parseDiplomacy statsFile diplomacyFile =
     (case diplomacyFile of
        None \<Rightarrow> []
      | Some content \<Rightarrow>
          let playerMap = buildPlayerIdMap statsFile;
              lines = fileLines content
          in if length lines < 2 then []
             else
               let relations = concat (map (rowRelations playerMap) (tl lines))
               in foldl applyUpdate relations (concat (map rowUpdates (tl lines))))"

text \<open>
  A diplomacy log with one relation row of turn 1 (player 0 towards player 1, and a cell
  of player 0 towards itself) and one threat-and-trust row of turn 2.
\<close>

definition diplomacyExample :: string where
  "diplomacyExample =
     ''Game Turn, Player, Action, Initial, 0, 1'' @ [CHR 0x0A]
     @ ''1, 0, Friendship, , 9:DIPLO_STATE_FRIENDLY, 5:DIPLO_STATE_FRIENDLY'' @ [CHR 0x0A]
     @ ''2, 0, Threat and Trust, , , 7.5:1:3.0'' @ [CHR 0x0A]"





section \<open>Game history (\<open>parseGameHistory\<close>, \<open>analyzeTrends\<close>,
  \<open>getLatestTurnStatsFullCivsOnly\<close>)\<close>





























section \<open>Save buffer: markers and the compressed segment\<close>

text \<open>
  A buffer is a list of bytes. The two library functions that the parser calls on
  buffers are parameters of the model: \<open>utf8\<close>, the decoder behind
  \<open>buffer.toString('utf8')\<close>, and \<open>unzipSync\<close>, the inflater of \<open>zlib\<close>, which returns
  \<open>None\<close> where the library raises.
\<close>

type_synonym byte = "8 word"

datatype error = InvalidMagic string | OutOfRange

definition COMPRESSED_DATA_END :: "byte list" where
  "COMPRESSED_DATA_END = [0, 0, 0xFF, 0xFF]"

definition ZLIB_HEADER :: "byte list" where
  "ZLIB_HEADER = [0x78, 0x9C]"

definition GAME_TURN :: "byte list" where
  "GAME_TURN = [0x9D, 0x2C, 0xE6, 0xBD]"

definition GAME_SPEED :: "byte list" where
  "GAME_SPEED = [0x99, 0xB0, 0xD9, 0x05]"

definition MAP_SIZE :: "byte list" where
  "MAP_SIZE = [0x40, 0x5C, 0x83, 0x0B]"

text \<open>\<open>readUInt32LE\<close> and \<open>readUInt16LE\<close> raise a \<open>RangeError\<close> past the end of the buffer.\<close>

definition readUInt32LE :: "byte list \<Rightarrow> nat \<Rightarrow> error + nat" where
  "readUInt32LE buffer offset =
     (if offset + 4 > length buffer then Inl OutOfRange
      else Inr (unat (buffer ! offset) + unat (buffer ! (offset + 1)) * 2 ^ 8
                + unat (buffer ! (offset + 2)) * 2 ^ 16 + unat (buffer ! (offset + 3)) * 2 ^ 24))"

definition readUInt16LE :: "byte list \<Rightarrow> nat \<Rightarrow> error + nat" where
  "readUInt16LE buffer offset =
     (if offset + 2 > length buffer then Inl OutOfRange
      else Inr (unat (buffer ! offset) + unat (buffer ! (offset + 1)) * 2 ^ 8))"

text \<open>
  \<open>buffer.toString('utf8', start, end)\<close>: the empty string when the range is empty,
  the decoded bytes of the range, cut at the end of the buffer, otherwise.
\<close>

definition toStringUtf8 :: "(byte list \<Rightarrow> string) \<Rightarrow> byte list \<Rightarrow> nat \<Rightarrow> nat \<Rightarrow> string" where
  "toStringUtf8 utf8 buffer start end' =
     (if end' \<le> start \<or> length buffer \<le> start then []
      else utf8 (substring buffer start end'))"

text \<open>
  \<open>buffer.toString('ascii')\<close>: the highest bit of every byte is unset, the rest is the
  code of the character.
\<close>

definition toStringAscii :: "byte list \<Rightarrow> string" where
  "toStringAscii buffer = map (\<lambda>b. char_of (unat b mod 128)) buffer"

datatype MarkerData = BooleanData bool | NumberData nat | StringData string

definition readMarkerValue ::
  "(byte list \<Rightarrow> string) \<Rightarrow> byte list \<Rightarrow> byte list \<Rightarrow> error + (nat \<times> MarkerData) option" where
  "readMarkerValue utf8 buffer marker =
     (case indexOf buffer marker 0 of
        None \<Rightarrow> Inr None
      | Some pos \<Rightarrow>
          (case readUInt32LE buffer (pos + 4) of
             Inl e \<Rightarrow> Inl e
           | Inr type \<Rightarrow>
               if type = 1 then
                 (case readUInt32LE buffer (pos + 16) of
                    Inl e \<Rightarrow> Inl e
                  | Inr v \<Rightarrow> Inr (Some (type, BooleanData (v \<noteq> 0))))
               else if type = 2 then
                 (case readUInt32LE buffer (pos + 16) of
                    Inl e \<Rightarrow> Inl e
                  | Inr v \<Rightarrow> Inr (Some (type, NumberData v)))
               else if type = 5 then
                 (case readUInt16LE buffer (pos + 8) of
                    Inl e \<Rightarrow> Inl e
                  | Inr strLen \<Rightarrow>
                      Inr (Some (type, StringData
                        (toStringUtf8 utf8 buffer (pos + 16) (pos + 16 + strLen - 1)))))
               else Inr None))"

text \<open>
  The loop of \<open>decompressGameData\<close> over the compressed range: 64 KB are kept, 4 bytes
  are skipped.
\<close>

definition chunkSize :: nat where
  "chunkSize = 64 * 1024"

function collectChunks :: "byte list \<Rightarrow> nat \<Rightarrow> byte list list" where
  "collectChunks compressedChunk pos =
     (if pos < length compressedChunk
      then substring compressedChunk pos (pos + chunkSize)
             # collectChunks compressedChunk (pos + chunkSize + 4)
      else [])"
  by pat_completeness auto
termination
  by (relation "measure (\<lambda>(compressedChunk, pos). length compressedChunk - pos)") auto

declare collectChunks.simps [simp del]

definition decompressGameData :: "(byte list \<Rightarrow> byte list option) \<Rightarrow> byte list \<Rightarrow> byte list option" where
  "decompressGameData unzipSync buffer =
     (case indexOf buffer ZLIB_HEADER 200000 of
        None \<Rightarrow> None
      | Some zlibStart \<Rightarrow>
          (case indexOf buffer COMPRESSED_DATA_END zlibStart of
             None \<Rightarrow> None
           | Some endPos \<Rightarrow>
               if endPos \<le> zlibStart then None
               else
                 let compressedChunk =
                       substring buffer zlibStart (endPos + length COMPRESSED_DATA_END);
                     chunks = collectChunks compressedChunk 0;
                     assembledData = concat chunks
                 in unzipSync assembledData))"


text \<open>
  The words of the specification about markers: the first occurrence of a pattern at or
  after a position, the first occurrence of all, and the little-endian value of a run of
  bytes.
\<close>

definition firstOccurrenceFrom :: "'a list \<Rightarrow> 'a list \<Rightarrow> nat \<Rightarrow> nat \<Rightarrow> bool" where
  "firstOccurrenceFrom xs p from pos =
     (from \<le> pos
      \<and> substring xs pos (pos + length p) = p
      \<and> (\<forall>q \<in> set [from..<pos]. substring xs q (q + length p) \<noteq> p))"

definition firstOccurrence :: "'a list \<Rightarrow> 'a list \<Rightarrow> nat \<Rightarrow> bool" where
  "firstOccurrence xs p pos = firstOccurrenceFrom xs p 0 pos"

definition leValue :: "byte list \<Rightarrow> nat" where
  "leValue bs = foldr (\<lambda>b v. unat b + 256 * v) bs 0"

text \<open>The stand-in decoder of the examples: every byte is the code of its character, which
  is what the UTF-8 decoder returns on ASCII bytes.\<close>

definition asciiText :: "byte list \<Rightarrow> string" where
  "asciiText bs = map (\<lambda>b. char_of (unat b)) bs"

text \<open>The bytes of an ASCII string.\<close>

definition bytesOf :: "string \<Rightarrow> byte list" where
  "bytesOf s = map (\<lambda>c. of_nat (of_char c)) s"

text \<open>
  Two buffers with the marker of the game speed at offset 4: one with type tag 2 and
  the integer 300 at offset 20, one with type tag 5, declared length 6 and the bytes of
  \<open>QUICK\<close> and a null byte at offset 20.
\<close>

definition intMarkerBuffer :: "byte list" where
  "intMarkerBuffer =
     bytesOf ''CIV6'' @ GAME_SPEED @ [2, 0, 0, 0] @ [0, 0, 0, 0, 0, 0, 0, 0] @ [0x2C, 0x01, 0, 0]"

definition stringMarkerBuffer :: "byte list" where
  "stringMarkerBuffer =
     bytesOf ''CIV6'' @ GAME_SPEED @ [5, 0, 0, 0] @ [6, 0, 0, 0, 0, 0, 0, 0]
       @ bytesOf ''QUICK'' @ [0]"


text \<open>
  The words of the specification about the compressed segment. \<open>frameChunks gap i z\<close>
  splits the stream \<open>z\<close> into chunks of 65536 bytes, the last one possibly shorter, and
  puts the framing bytes \<open>gap i\<close>, \<open>gap (i + 1)\<close>, ... behind the chunks.
\<close>

function frameChunks :: "(nat \<Rightarrow> byte list) \<Rightarrow> nat \<Rightarrow> byte list \<Rightarrow> byte list" where
  "frameChunks gap i z =
     (if length z \<le> chunkSize then z @ gap i
      else take chunkSize z @ gap i @ frameChunks gap (Suc i) (drop chunkSize z))"
  by pat_completeness auto
termination
  by (relation "measure (\<lambda>(gap, i, z). length z)") (auto simp: chunkSize_def)

declare frameChunks.simps [simp del]

text \<open>The data that \<open>decompressGameData\<close> hands to the inflater.\<close>

definition assembledData :: "byte list \<Rightarrow> byte list option" where
  "assembledData buffer =
     (case indexOf buffer ZLIB_HEADER 200000 of
        None \<Rightarrow> None
      | Some zlibStart \<Rightarrow>
          (case indexOf buffer COMPRESSED_DATA_END zlibStart of
             None \<Rightarrow> None
           | Some endPos \<Rightarrow>
               if endPos \<le> zlibStart then None
               else Some (concat (collectChunks
                      (substring buffer zlibStart (endPos + length COMPRESSED_DATA_END)) 0))))"

text \<open>
  A stand-in codec for the examples, since the codec of \<open>zlib\<close> is not part of the
  program: the stream is the two header bytes, the plain bytes and the byte \<open>FE\<close>. The
  inflater reads up to the first \<open>FE\<close> and ignores what follows; of a stream that is cut
  short it returns what it has read, as the inflater does under the flush mode
  \<open>Z_SYNC_FLUSH\<close> that the program passes; it fails without the header.
\<close>

definition standInDeflate :: "byte list \<Rightarrow> byte list" where
  "standInDeflate plain = ZLIB_HEADER @ plain @ [0xFE]"

definition standInInflate :: "byte list \<Rightarrow> byte list option" where
  "standInInflate data =
     (if startsWith data ZLIB_HEADER
      then Some (takeWhile (\<lambda>b. b \<noteq> 0xFE) (drop 2 data)) else None)"

text \<open>
  A plain text of 65539 bytes, whose stream of 65542 bytes needs two chunks; framing
  bytes \<open>01 02 03 04\<close>, and framing bytes that are those of the end sentinel; and the
  save buffer with 200000 bytes of padding, the framed stream and the end sentinel.
\<close>

definition longPlain :: "byte list" where
  "longPlain = replicate 65539 0x41"

definition plainGap :: "nat \<Rightarrow> byte list" where
  "plainGap i = [1, 2, 3, 4]"

definition sentinelGap :: "nat \<Rightarrow> byte list" where
  "sentinelGap i = COMPRESSED_DATA_END"

definition framedSave :: "(nat \<Rightarrow> byte list) \<Rightarrow> byte list" where
  "framedSave gap =
     replicate 200000 0 @ frameChunks gap 0 (standInDeflate longPlain) @ COMPRESSED_DATA_END @ []"


section \<open>Header entities (\<open>extractCivsFromHeader\<close>)\<close>

datatype CivType = full_civ | city_state | free_cities

text \<open>
  \<open>CivInfo\<close>, with the prefix \<open>ci\<close> on its fields. The optional field \<open>isCurrentTurn\<close>
  is never written by the parser and is left out.
\<close>

record CivInfo =
  ci_leader :: string
  ci_civilization :: string
  ci_type :: CivType
  ci_isHuman :: bool

definition formatEnumValue :: "string \<Rightarrow> string" where
  "formatEnumValue value = joinSpace (map capitalize (split (CHR ''_'') value))"

text \<open>The table of \<open>getLeaderForCiv\<close>.\<close>

definition civToLeader :: "(string \<times> string) list" where
  "civToLeader =
    [(''VIETNAM'', (''B'' @ [CHR 0xC3] @ [CHR 0xA0] @ '' Tri'' @ [CHR 0xE1] @ [CHR 0xBB] @ [CHR 0x87] @ ''u'')),
     (''GEORGIA'', ''Tamar''), (''PERSIA'', ''Cyrus''), (''CANADA'', ''Wilfrid Laurier''),
     (''NETHERLANDS'', ''Wilhelmina''), (''OTTOMAN'', ''Suleiman''), (''ROME'', ''Trajan''),
     (''EGYPT'', ''Cleopatra''), (''MACEDON'', ''Alexander''), (''SUMERIA'', ''Gilgamesh''),
     (''INDIA'', ''Gandhi''), (''CHINA'', ''Qin Shi Huang''),
     (''RUSSIA'', ''Peter the Great''), (''ENGLAND'', ''Victoria''),
     (''AZTEC'', ''Montezuma''), (''GERMANY'', ''Barbarossa''), (''GREECE'', ''Pericles''),
     (''JAPAN'', ''Hojo''), (''KONGO'', ''Mvemba a Nzinga''), (''BRAZIL'', ''Pedro II''),
     (''NORWAY'', ''Harald Hardrada''), (''SCYTHIA'', ''Tomyris''),
     (''SPAIN'', ''Philip II''), (''POLAND'', ''Jadwiga''), (''ARABIA'', ''Saladin''),
     (''INDONESIA'', ''Gitarja''), (''KHMER'', ''Jayavarman VII''),
     (''AUSTRALIA'', ''John Curtin''), (''ZULU'', ''Shaka''),
     (''MONGOLIA'', ''Genghis Khan''), (''SCOTLAND'', ''Robert the Bruce''),
     (''GAUL'', ''Ambiorix''), (''NUBIA'', ''Amanitore'')]"

text \<open>\<open>civToLeader[civ] || formatEnumValue(civ)\<close>.\<close>

definition getLeaderForCiv :: "string \<Rightarrow> string" where
  "getLeaderForCiv civ =
     (case map_of civToLeader civ of
        Some leader \<Rightarrow> if leader = [] then formatEnumValue civ else leader
      | None \<Rightarrow> formatEnumValue civ)"

text \<open>
  The loop \<open>while (true) { pos = text.indexOf(marker, searchPos); ... }\<close>: the positions
  of the occurrences of a marker, each search starting behind the occurrence before.
  The markers of the program are not empty.
\<close>

function occurrences :: "string \<Rightarrow> string \<Rightarrow> nat \<Rightarrow> nat list" where
  "occurrences text marker searchPos =
     (if marker = [] then []
      else case indexOf text marker searchPos of
             None \<Rightarrow> []
           | Some pos \<Rightarrow> pos # occurrences text marker (pos + length marker))"
  by pat_completeness auto
termination
proof (relation "measure (\<lambda>(text, marker, searchPos). Suc (length text) - searchPos)")
  show "wf (measure (\<lambda>(text, marker, searchPos). Suc (length text) - searchPos))"
    by simp
next
  fix s marker :: string and searchPos pos :: nat
  assume ne: "marker \<noteq> []" and found: "indexOf s marker searchPos = Some pos"
  have bound: "k \<le> r \<and> r + length p \<le> k + length xs"
    if "searchAt p k xs = Some r" "p \<noteq> []" for p xs :: string and k r
    using that
  proof (induction xs arbitrary: k)
    case Nil
    then show ?case by simp
  next
    case (Cons x xs)
    show ?case
    proof (cases "startsWith (x # xs) p")
      case True
      then have "length (take (length p) (x # xs)) = length p"
        by (simp add: startsWith_def)
      then have "length p \<le> length (x # xs)"
        by (simp add: min_def split: if_splits)
      then show ?thesis using Cons.prems True by simp
    next
      case False
      then have "searchAt p (Suc k) xs = Some r" using Cons.prems by simp
      from Cons.IH [OF this Cons.prems(2)] show ?thesis by simp
    qed
  qed
  have "searchPos \<le> pos \<and> pos + length marker \<le> searchPos + length (drop searchPos s)"
    using bound [of marker searchPos "drop searchPos s" pos] found ne
    by (simp add: indexOf_def)
  moreover have "0 < length marker" using ne by simp
  moreover have "searchPos \<le> length s"
  proof (rule ccontr)
    assume "\<not> searchPos \<le> length s"
    then have "drop searchPos s = []" by simp
    then show False using found by (simp add: indexOf_def)
  qed
  ultimately have "Suc (length s) - (pos + length marker) < Suc (length s) - searchPos"
    by arith
  then show "((s, marker, pos + length marker), (s, marker, searchPos))
      \<in> measure (\<lambda>(text, marker, searchPos). Suc (length text) - searchPos)"
    by simp
qed

declare occurrences.simps [simp del]

definition isTokenChar :: "char \<Rightarrow> bool" where
  "isTokenChar c = (isUpper c \<or> c = CHR ''_'')"

text \<open>
  All matches of a global pattern \<open>PREFIX[A-Z_]+\<close>, from left to right and without
  overlap: at a position where the prefix stands and a character of the class follows,
  the match is the prefix and the whole run of such characters. The pattern
  \<open>CIVILIZATION_([A-Z_]+?)(?=[^A-Z_]|$)\<close> of the header has the same matches: its lazy
  run has to grow until the character behind it is outside the class.
\<close>

function scanTokens :: "string \<Rightarrow> string \<Rightarrow> string list" where
  "scanTokens pre [] = []"
| "scanTokens pre (c # cs) =
     (if startsWith (c # cs) pre \<and> takeWhile isTokenChar (drop (length pre) (c # cs)) \<noteq> []
      then (pre @ takeWhile isTokenChar (drop (length pre) (c # cs)))
             # scanTokens pre
                 (drop (length pre + length (takeWhile isTokenChar (drop (length pre) (c # cs))))
                    (c # cs))
      else scanTokens pre cs)"
  by pat_completeness auto
termination
  by (relation "measure (\<lambda>(pre, s). length s)") auto

text \<open>The first groups of \<open>section.matchAll(/CIVILIZATION_([A-Z_]+?)(?=[^A-Z_]|$)/g)\<close>.\<close>

definition civMatches :: "string \<Rightarrow> string list" where
  "civMatches section = map (drop (length ''CIVILIZATION_'')) (scanTokens ''CIVILIZATION_'' section)"

text \<open>
  The loop from the last match to the first: the closest match that does not start with
  \<open>LEVEL\<close>, without a \<open>_NAME\<close> at its end.
\<close>

definition closestCiv :: "string list \<Rightarrow> string option" where
  "closestCiv ms =
     map_option (stripSuffix ''_NAME'') (find (\<lambda>civ. \<not> startsWith civ ''LEVEL'') (rev ms))"

text \<open>
  One marker \<open>CIVILIZATION_LEVEL_FULL_CIV\<close> at \<open>pos\<close>. \<open>Math.max(0, pos - 500)\<close> is the
  subtraction of natural numbers. The state is \<open>seenCivs\<close> and \<open>allCivs\<close>.
\<close>

definition fullCivStep ::
  "string \<Rightarrow> string list \<times> CivInfo list \<Rightarrow> nat \<Rightarrow> string list \<times> CivInfo list" where
  "fullCivStep headerText st pos =
     (case st of (seenCivs, allCivs) \<Rightarrow>
        let start = pos - 500;
            section = substring headerText start pos
        in case closestCiv (civMatches section) of
             None \<Rightarrow> st
           | Some civ \<Rightarrow>
               if civ \<in> set seenCivs then st
               else
                 let afterMarker = substring headerText pos (pos + 100);
                     isHuman = stringIncludes afterMarker ''Player''
                 in (seenCivs @ [civ],
                     allCivs @ [\<lparr> ci_leader = getLeaderForCiv civ,
                                  ci_civilization = formatEnumValue civ,
                                  ci_type = full_civ,
                                  ci_isHuman = isHuman \<rparr>]))"

text \<open>One marker \<open>CIVILIZATION_LEVEL_CITY_STATE\<close> at \<open>pos\<close>; the state is
  \<open>seenCityStates\<close> and \<open>cityStates\<close>.\<close>

definition cityStateStep ::
  "string \<Rightarrow> string list \<times> string list \<Rightarrow> nat \<Rightarrow> string list \<times> string list" where
  "cityStateStep headerText st pos =
     (case st of (seenCityStates, cityStates) \<Rightarrow>
        let start = pos - 500;
            section = substring headerText start pos
        in case closestCiv (civMatches section) of
             None \<Rightarrow> st
           | Some cs \<Rightarrow>
               if cs \<notin> set seenCityStates
               then (seenCityStates @ [cs], cityStates @ [formatEnumValue cs])
               else st)"

definition extractCivsFromHeader :: "string \<Rightarrow> CivInfo option \<times> CivInfo list \<times> string list" where
  "extractCivsFromHeader headerText =
     (let fullCivPositions = occurrences headerText ''CIVILIZATION_LEVEL_FULL_CIV'' 0;
          allCivs = snd (foldl (fullCivStep headerText) ([], []) fullCivPositions);
          csPositions = occurrences headerText ''CIVILIZATION_LEVEL_CITY_STATE'' 0;
          cityStates = snd (foldl (cityStateStep headerText) ([], []) csPositions)
      in (if allCivs \<noteq> [] then Some (hd allCivs) else None,
          tl allCivs,
          take 15 cityStates))"


section \<open>Decompressed content (\<open>analyzeDecompressedData\<close>)\<close>

text \<open>\<open>DecompressedInfo\<close>, with the prefix \<open>di\<close> on its fields.\<close>

record DecompressedInfo =
  di_technologies :: "string list"
  di_civics :: "string list"
  di_wonders :: "string list"
  di_greatPeople :: "string list"
  di_cityStates :: "string list"
  di_playerCities :: "string list"

definition WONDER_NAMES :: "string list" where
  "WONDER_NAMES =
    [''PYRAMIDS'', ''STONEHENGE'', ''HANGING_GARDENS'', ''ORACLE'', ''COLOSSEUM'', ''PETRA'',
     ''TERRACOTTA_ARMY'', ''MACHU_PICCHU'', ''GREAT_LIBRARY'', ''GREAT_LIGHTHOUSE'',
     ''COLOSSUS'', ''ALHAMBRA'', ''CHICHEN_ITZA'', ''ANGKOR_WAT'', ''MONT_ST_MICHEL'',
     ''FORBIDDEN_CITY'', ''TAJ_MAHAL'', ''POTALA_PALACE'', ''ST_BASILS_CATHEDRAL'',
     ''BIG_BEN'', ''HERMITAGE'', ''BOLSHOI_THEATRE'', ''OXFORD_UNIVERSITY'', ''RUHR_VALLEY'',
     ''STATUE_OF_LIBERTY'', ''EIFFEL_TOWER'', ''BROADWAY'', ''CRISTO_REDENTOR'',
     ''SYDNEY_OPERA_HOUSE'', ''PANAMA_CANAL'', ''VENETIAN_ARSENAL'', ''GREAT_ZIMBABWE'',
     ''APADANA'', ''HUEY_TEOCALLI'', ''JEBEL_BARKAL'', ''KILWA_KISIWANI'', ''KOTOKU_IN'',
     ''MEENAKSHI_TEMPLE'', ''STATUE_OF_ZEUS'', ''TEMPLE_OF_ARTEMIS'', ''AMUNDSEN_SCOTT'',
     ''BIOSPHERE'', ''CASA_DE_CONTRATACION'', ''GOLDEN_GATE_BRIDGE'', ''GREAT_BATH'',
     ''HAGIA_SOPHIA'', ''MAUSOLEUM_HALICARNASSUS'']"

definition isWonder :: "string \<Rightarrow> bool" where
  "isWonder building =
     (let name = removeFirst ''BUILDING_'' building
      in list_ex (\<lambda>w. startsWith name w) WONDER_NAMES)"

text \<open>The suffixes that \<open>cleanWonderName\<close> strips.\<close>

definition wonderSuffixes :: "string list" where
  "wonderSuffixes =
    [''_NAME'', ''_GOLD'', ''_PRODUCTION'', ''_CULTURE'', ''_FAITH'', ''_SCIENCE'',
     ''_DESCRIPTION'', ''_RANDOMCIVICBOOST'', ''_RANDOMTECHBOOST'', ''_QUOTE'']"

text \<open>The first suffix of the list that the name ends with is cut off.\<close>

definition cleanWonderName :: "string \<Rightarrow> string" where
  "cleanWonderName building =
     (let name = removeFirst ''BUILDING_'' building
      in formatEnumValue
           (case find (\<lambda>suffix. endsWith name suffix) wonderSuffixes of
              Some suffix \<Rightarrow> take (length name - length suffix) name
            | None \<Rightarrow> name))"

text \<open>The city states that the save-file parser knows.\<close>

definition parserCityStates :: "string list" where
  "parserCityStates =
    [''HATTUSA'', ''KABUL'', ''SINGAPORE'', ''NGAZARGAMU'', ''HUNZA'', ''LA_VENTA'',
     ''AKKAD'', ''TARUGA'', ''BRUSSELS'', ''GENEVA'', ''BABYLON'', ''MUSCAT'', ''VALLETTA'',
     ''BUENOS_AIRES'', ''ANTANANARIVO'', ''ZANZIBAR'', ''KUMASI'', ''VILNIUS'', ''BOLOGNA'',
     ''FEZ'', ''JERUSALEM'', ''KANDY'', ''YEREVAN'', ''VATICAN_CITY'', ''AUCKLAND'',
     ''GRANADA'', ''CAHOKIA'', ''MITLA'', ''JOHANNESBURG'', ''NAZCA'', ''AYUTTHAYA'',
     ''CAGUANA'', ''CHINGUETTI'', ''HONG_KONG'', ''MOHENJO_DARO'', ''NAN_MADOL'',
     ''PRESLAV'', ''RAPA_NUI'', ''TORONTO'', ''WOLIN'', ''ARMAGH'', ''LAHORE'',
     ''SAMARKAND'', ''MOGADISHU'', ''NALANDA'']"

text \<open>The city-state test of the save-file parser: \<open>cityStates.some(cs => civ.includes(cs))\<close>.\<close>

definition isCityStateName :: "string \<Rightarrow> bool" where
  "isCityStateName civ = list_ex (\<lambda>cs. stringIncludes civ cs) parserCityStates"

text \<open>\<open>w.charAt(0) + w.slice(1).toLowerCase()\<close>.\<close>

definition lowerTail :: "string \<Rightarrow> string" where
  "lowerTail w = (case w of [] \<Rightarrow> [] | c # cs \<Rightarrow> c # map toLowerCase cs)"

definition formatGreatPersonName :: "string \<Rightarrow> string" where
  "formatGreatPersonName raw =
     joinSpace (map lowerTail (split (CHR ''_'')
       (removeFirst ''_NAME'' (removeFirst ''GREAT_PERSON_INDIVIDUAL_'' raw))))"

text \<open>
  All matches of \<open>/GREAT_PERSON_INDIVIDUAL_[A-Z_]+_NAME/g\<close>. The greedy run takes all
  characters of the class and gives back until \<open>_NAME\<close> ends the match: the match is the
  prefix and the longest part of the run that ends with \<open>_NAME\<close> and has a character
  before it.
\<close>

definition greedyName :: "string \<Rightarrow> string option" where
  "greedyName run =
     map_option (\<lambda>k. take k run)
       (find (\<lambda>k. endsWith (take k run) ''_NAME'') (rev [length ''_NAME'' + 1..<length run + 1]))"

function scanGreatPeople :: "string \<Rightarrow> string list" where
  "scanGreatPeople [] = []"
| "scanGreatPeople (c # cs) =
     (if startsWith (c # cs) ''GREAT_PERSON_INDIVIDUAL_'' then
        (case greedyName (takeWhile isTokenChar (drop (length ''GREAT_PERSON_INDIVIDUAL_'') (c # cs))) of
           Some m \<Rightarrow>
             (''GREAT_PERSON_INDIVIDUAL_'' @ m)
               # scanGreatPeople (drop (length ''GREAT_PERSON_INDIVIDUAL_'' + length m) (c # cs))
         | None \<Rightarrow> scanGreatPeople cs)
      else scanGreatPeople cs)"
  by pat_completeness auto
termination
  by (relation "measure length") auto

definition vietnamCities :: "string list" where
  "vietnamCities =
    [''THANG_LONG'', ''HUE'', ''HANOI'', ''SAIGON'', ''DA_NANG'', ''HAI_PHONG'',
     ''NHA_TRANG'', ''CAN_THO'', ''BIEN_HOA'', ''VINH'']"

text \<open>
  \<open>analyzeDecompressedData\<close>. The list \<open>cityNames\<close> of the source is computed and never
  used; it is left out.
\<close>

definition analyzeDecompressedData :: "(byte list \<Rightarrow> string) \<Rightarrow> byte list \<Rightarrow> DecompressedInfo" where
  "analyzeDecompressedData utf8 data =
     (let text = utf8 data;
          techs = uniqueInOrder (filter (\<lambda>t. \<not> stringIncludes t ''BOOST'' \<and> \<not> stringIncludes t ''GRANT'')
                    (scanTokens ''TECH_'' text));
          civics = uniqueInOrder (scanTokens ''CIVIC_'' text);
          wonderMatches = uniqueInOrder (filter isWonder (scanTokens ''BUILDING_'' text));
          wonderNamesClean = uniqueInOrder (map cleanWonderName wonderMatches);
          greatPeople = map formatGreatPersonName (uniqueInOrder (scanGreatPeople text));
          playerCities = map formatEnumValue (filter (\<lambda>c. stringIncludes text c) vietnamCities);
          cityStates = map formatEnumValue (filter isCityStateName
                         (map (removeFirst ''CIVILIZATION_'')
                            (uniqueInOrder (scanTokens ''CIVILIZATION_'' text))))
      in \<lparr> di_technologies = map (\<lambda>t. formatEnumValue (removeFirst ''TECH_'' t)) (take 20 techs),
           di_civics = map (\<lambda>c. formatEnumValue (removeFirst ''CIVIC_'' c)) (take 20 civics),
           di_wonders = take 15 wonderNamesClean,
           di_greatPeople = take 15 greatPeople,
           di_cityStates = take 12 cityStates,
           di_playerCities = playerCities \<rparr>)"











section \<open>The save file (\<open>parseSaveFile\<close>)\<close>

text \<open>The table of \<open>identifyCivFromCities\<close>.\<close>

definition cityToCiv :: "(string \<times> string) list" where
  "cityToCiv =
    [(''Hue'', ''VIETNAM''), (''Da Nang'', ''VIETNAM''), (''Hanoi'', ''VIETNAM''),
     (''Saigon'', ''VIETNAM''), (''Nha Trang'', ''VIETNAM''), (''Can Tho'', ''VIETNAM''),
     (''Hai Phong'', ''VIETNAM''), (''Vinh'', ''VIETNAM''), (''Thang Long'', ''VIETNAM''),
     (''Bien Hoa'', ''VIETNAM''), (''Tbilisi'', ''GEORGIA''), (''Kutaisi'', ''GEORGIA''),
     (''Batumi'', ''GEORGIA''), (''Persepolis'', ''PERSIA''), (''Pasargadae'', ''PERSIA''),
     (''Susa'', ''PERSIA''), (''Ottawa'', ''CANADA''), (''Toronto'', ''CANADA''),
     (''Montreal'', ''CANADA''), (''Amsterdam'', ''NETHERLANDS''),
     (''Rotterdam'', ''NETHERLANDS''), (''The Hague'', ''NETHERLANDS''),
     (''Istanbul'', ''OTTOMAN''), (''Ankara'', ''OTTOMAN''), (''Edirne'', ''OTTOMAN''),
     (''Rome'', ''ROME''), (''Antium'', ''ROME''), (''Cumae'', ''ROME''),
     (''Alexandria'', ''EGYPT''), (''Thebes'', ''EGYPT''), (''Memphis'', ''EGYPT'')]"

text \<open>The first city of the list that the table knows decides.\<close>

fun identifyCivFromCities :: "string list \<Rightarrow> string option" where
  "identifyCivFromCities [] = None"
| "identifyCivFromCities (city # cities) =
     (case map_of cityToCiv city of
        Some civ \<Rightarrow> if civ \<noteq> [] then Some civ else identifyCivFromCities cities
      | None \<Rightarrow> identifyCivFromCities cities)"

text \<open>\<open>xs.findIndex(P)\<close>, with \<open>None\<close> for -1.\<close>

fun findIndex :: "('a \<Rightarrow> bool) \<Rightarrow> 'a list \<Rightarrow> nat option" where
  "findIndex P [] = None"
| "findIndex P (x # xs) = (if P x then Some 0 else map_option Suc (findIndex P xs))"

text \<open>
  The identification of the player (the part of \<open>parseSaveFile\<close> from
  \<open>let playerCiv\<close> to the loop that marks the other civilizations): the result is
  \<open>playerCiv\<close> and \<open>otherCivs\<close>. A match by the cities sets \<open>isHuman\<close> of the player; the
  fallback takes the first civilization as it is.
\<close>

definition identifyPlayer ::
  "CivInfo list \<Rightarrow> DecompressedInfo option \<Rightarrow> CivInfo option \<times> CivInfo list" where
  "identifyPlayer allCivs decompressedInfo =
     (let matched =
            (case decompressedInfo of
               None \<Rightarrow> None
             | Some info \<Rightarrow>
                 if di_playerCities info = [] then None
                 else
                   (case identifyCivFromCities (di_playerCities info) of
                      None \<Rightarrow> None
                    | Some playerCivName \<Rightarrow>
                        (case findIndex (\<lambda>c. map toUpperCase (ci_civilization c)
                                               = map toUpperCase playerCivName) allCivs of
                           None \<Rightarrow> None
                         | Some matchIndex \<Rightarrow>
                             Some ((allCivs ! matchIndex)\<lparr> ci_isHuman := True \<rparr>,
                                   take matchIndex allCivs @ drop (Suc matchIndex) allCivs))));
          chosen =
            (case matched of
               Some (playerCiv, otherCivs) \<Rightarrow> (Some playerCiv, otherCivs)
             | None \<Rightarrow> if allCivs \<noteq> [] then (Some (hd allCivs), tl allCivs) else (None, []))
      in (fst chosen, map (\<lambda>civ. civ\<lparr> ci_isHuman := False \<rparr>) (snd chosen)))"

text \<open>The pattern \<open>/AutoSave_(\d+)/\<close> on the name of the file: the digits of the leftmost match.\<close>

fun matchAutoSave :: "string \<Rightarrow> string option" where
  "matchAutoSave [] = None"
| "matchAutoSave (c # cs) =
     (if startsWith (c # cs) ''AutoSave_''
         \<and> takeWhile isDigit (drop (length ''AutoSave_'') (c # cs)) \<noteq> []
      then Some (takeWhile isDigit (drop (length ''AutoSave_'') (c # cs)))
      else matchAutoSave cs)"

text \<open>
  \<open>GameState\<close>, with the prefix \<open>gs\<close> on its fields. The fields \<open>era\<close>, \<open>difficulty\<close>,
  \<open>mapType\<close>, \<open>gameVersion\<close> and \<open>mods\<close> are left out: \<open>parseSaveFile\<close> fills each of them
  by a pattern match on the header text that cannot raise and that no other field reads.
  The five lists of the decompressed data are present when the data could be inflated.
\<close>

record GameState =
  gs_leader :: string
  gs_civilization :: string
  gs_turn :: nat
  gs_mapSize :: string
  gs_gameSpeed :: string
  gs_otherCivs :: "CivInfo list"
  gs_cityStates :: "string list"
  gs_technologies :: "string list option"
  gs_civics :: "string list option"
  gs_wonders :: "string list option"
  gs_greatPeople :: "string list option"
  gs_playerCities :: "string list option"

text \<open>The civilizations of the header, \<open>allCivs\<close> of \<open>parseSaveFile\<close>.\<close>

definition headerCivs :: "string \<Rightarrow> CivInfo list" where
  "headerCivs headerSection =
     (case extractCivsFromHeader headerSection of
        (headerPlayer, headerAiCivs, headerCityStates) \<Rightarrow>
          (case headerPlayer of Some p \<Rightarrow> p # headerAiCivs | None \<Rightarrow> headerAiCivs))"

text \<open>
  \<open>parseSaveFile\<close> on the content of the file and the base name of its path. The errors
  are the one of the magic bytes and the \<open>RangeError\<close> of a read past the end of the
  buffer; \<open>decompressGameData\<close> runs inside \<open>try\<close>.
\<close>

definition parseSaveFile ::
  "(byte list \<Rightarrow> string) \<Rightarrow> (byte list \<Rightarrow> byte list option) \<Rightarrow> string \<Rightarrow> byte list
     \<Rightarrow> error + GameState" where
  "parseSaveFile utf8 unzipSync fileName buffer =
     (let magic = toStringAscii (substring buffer 0 4) in
      if magic \<noteq> ''CIV6'' then Inl (InvalidMagic magic)
      else
        let headerSection = utf8 (substring buffer 0 (min (length buffer) 150000)) in
        case readMarkerValue utf8 buffer GAME_TURN of
          Inl e \<Rightarrow> Inl e
        | Inr turnData \<Rightarrow>
            let turn0 = (case turnData of Some (t, NumberData n) \<Rightarrow> n | _ \<Rightarrow> 0);
                turn = (if turn0 = 0
                        then (case matchAutoSave fileName of
                                Some ds \<Rightarrow> digitsValue ds
                              | None \<Rightarrow> turn0)
                        else turn0)
            in
            case readMarkerValue utf8 buffer GAME_SPEED of
              Inl e \<Rightarrow> Inl e
            | Inr speedData \<Rightarrow>
                let gameSpeed = (case speedData of
                                   Some (t, StringData s) \<Rightarrow> formatEnumValue (removeFirst ''GAMESPEED_'' s)
                                 | _ \<Rightarrow> ''Standard'')
                in
                case readMarkerValue utf8 buffer MAP_SIZE of
                  Inl e \<Rightarrow> Inl e
                | Inr sizeData \<Rightarrow>
                    let mapSize = (case sizeData of
                                     Some (t, StringData s) \<Rightarrow> formatEnumValue (removeFirst ''MAPSIZE_'' s)
                                   | _ \<Rightarrow> ''Unknown'');
                        headerCityStates = snd (snd (extractCivsFromHeader headerSection));
                        allCivs = headerCivs headerSection;
                        decompressedInfo = map_option (analyzeDecompressedData utf8)
                                             (decompressGameData unzipSync buffer);
                        playerCiv = fst (identifyPlayer allCivs decompressedInfo);
                        otherCivs = snd (identifyPlayer allCivs decompressedInfo)
                    in Inr \<lparr> gs_leader = (case playerCiv of
                                             Some p \<Rightarrow> if ci_leader p = [] then ''Unknown'' else ci_leader p
                                           | None \<Rightarrow> ''Unknown''),
                              gs_civilization = (case playerCiv of
                                             Some p \<Rightarrow> if ci_civilization p = [] then ''Unknown''
                                                       else ci_civilization p
                                           | None \<Rightarrow> ''Unknown''),
                              gs_turn = turn,
                              gs_mapSize = mapSize,
                              gs_gameSpeed = gameSpeed,
                              gs_otherCivs = otherCivs,
                              gs_cityStates = (if headerCityStates \<noteq> [] then headerCityStates
                                               else (case decompressedInfo of
                                                       Some info \<Rightarrow> di_cityStates info
                                                     | None \<Rightarrow> [])),
                              gs_technologies = map_option di_technologies decompressedInfo,
                              gs_civics = map_option di_civics decompressedInfo,
                              gs_wonders = map_option di_wonders decompressedInfo,
                              gs_greatPeople = map_option di_greatPeople decompressedInfo,
                              gs_playerCities = map_option di_playerCities decompressedInfo \<rparr>)"



text \<open>A stand-in for the inflater that always fails, as the library does on bad data.\<close>

definition noInflate :: "byte list \<Rightarrow> byte list option" where
  "noInflate data = None"



text \<open>The records that the identification extracts: the player, if any, and the others.\<close>

definition extractedCivs :: "CivInfo option \<times> CivInfo list \<Rightarrow> CivInfo list" where
  "extractedCivs r = (case fst r of Some p \<Rightarrow> p # snd r | None \<Rightarrow> snd r)"

text \<open>
  The index in the roster of the civilization that the decoded city names match through
  the city table, when the match succeeds.
\<close>

definition cityMatch :: "CivInfo list \<Rightarrow> DecompressedInfo option \<Rightarrow> nat option" where
  "cityMatch allCivs decompressedInfo =
     (case decompressedInfo of
        None \<Rightarrow> None
      | Some info \<Rightarrow>
          if di_playerCities info = [] then None
          else
            (case identifyCivFromCities (di_playerCities info) of
               None \<Rightarrow> None
             | Some playerCivName \<Rightarrow>
                 findIndex (\<lambda>c. map toUpperCase (ci_civilization c) = map toUpperCase playerCivName)
                   allCivs))"

text \<open>The roster and the decompressed data that \<open>parseSaveFile\<close> works with.\<close>

definition saveCivs :: "(byte list \<Rightarrow> string) \<Rightarrow> byte list \<Rightarrow> CivInfo list" where
  "saveCivs utf8 buffer = headerCivs (utf8 (substring buffer 0 (min (length buffer) 150000)))"

definition saveInfo ::
  "(byte list \<Rightarrow> string) \<Rightarrow> (byte list \<Rightarrow> byte list option) \<Rightarrow> byte list \<Rightarrow> DecompressedInfo option" where
  "saveInfo utf8 unzipSync buffer =
     map_option (analyzeDecompressedData utf8) (decompressGameData unzipSync buffer)"


text \<open>
  A save file that is its magic bytes alone; a save file whose header names Rome as a
  full civilization; and a roster of Rome and Vietnam with decompressed data that name
  the city of Hanoi.
\<close>

definition emptyRosterSave :: "byte list" where
  "emptyRosterSave = bytesOf ''CIV6''"

definition romeSaveText :: string where
  "romeSaveText = ''CIV6 CIVILIZATION_ROME x CIVILIZATION_LEVEL_FULL_CIV Player y''"

definition romeSave :: "byte list" where
  "romeSave = bytesOf romeSaveText"

definition romeVietnam :: "CivInfo list" where
  "romeVietnam =
     [\<lparr> ci_leader = ''Trajan'', ci_civilization = ''Rome'', ci_type = full_civ, ci_isHuman = True \<rparr>,
      \<lparr> ci_leader = ''Trieu'', ci_civilization = ''Vietnam'', ci_type = full_civ, ci_isHuman = False \<rparr>]"

definition hanoiInfo :: DecompressedInfo where
  "hanoiInfo =
     \<lparr> di_technologies = [], di_civics = [], di_wonders = [], di_greatPeople = [],
       di_cityStates = [], di_playerCities = [''Hanoi''] \<rparr>"


section \<open>Properties of the player-index resolver\<close>

lemma mapSet_fresh: "k \<notin> set (map fst m) \<Longrightarrow> mapSet m k v = m @ [(k, v)]"
  by (induction m) auto

lemma foldl_playerIdStep:
  "foldl playerIdStep m ls =
   foldl nameStep m (map (\<lambda>line. removeFirst ''CIVILIZATION_'' (cells line ! 1))
       (filter (\<lambda>line. \<not> length (cells line) < 2) ls))"
  by (induction ls arbitrary: m) (simp_all add: playerIdStep_def nameStep_def Let_def)

lemma foldl_nameStep:
  "foldl nameStep (zip seen [0..<length seen]) ns =
   zip (firstSeen seen ns) [0..<length (firstSeen seen ns)]"
proof (induction ns arbitrary: seen)
  case Nil
  then show ?case by simp
next
  case (Cons n ns)
  show ?case
  proof (cases "n \<in> set seen")
    case True
    then have "mapHas (zip seen [0..<length seen]) n"
      by (simp add: mapHas_def)
    then show ?thesis using Cons.IH [of seen] True by (simp add: nameStep_def)
  next
    case False
    then have nh: "n \<notin> set (map fst (zip seen [0..<length seen]))" by simp
    have "nameStep (zip seen [0..<length seen]) n = zip seen [0..<length seen] @ [(n, length seen)]"
      using nh by (simp add: nameStep_def mapHas_def mapSet_fresh)
    also have "\<dots> = zip (seen @ [n]) [0..<length (seen @ [n])]"
      by simp
    finally show ?thesis using Cons.IH [of "seen @ [n]"] False by simp
  qed
qed

lemma foldl_invert:
  "\<forall>i \<in> set (map fst acc). i < k \<Longrightarrow>
   foldl (\<lambda>playerMap (civName, playerId). mapSet playerMap playerId civName) acc
     (zip ds [k..<k + length ds]) = acc @ zip [k..<k + length ds] ds"
proof (induction ds arbitrary: acc k)
  case Nil
  then show ?case by simp
next
  case (Cons d ds)
  have fresh: "k \<notin> set (map fst acc)" using Cons.prems by auto
  have up: "[k..<k + length (d # ds)] = k # [Suc k..<Suc k + length ds]"
    by (simp add: upt_rec)
  have "\<forall>i \<in> set (map fst (acc @ [(k, d)])). i < Suc k" using Cons.prems by auto
  from Cons.IH [OF this] show ?case
    by (simp only: up zip_Cons_Cons foldl_Cons prod.case mapSet_fresh [OF fresh]) simp
qed

lemma distinct_firstSeen: "distinct seen \<Longrightarrow> distinct (firstSeen seen ns)"
  by (induction ns arbitrary: seen) auto

lemma firstSeen_repeat:
  "n \<in> set seen \<union> set ns \<Longrightarrow> firstSeen seen (ns @ [n]) = firstSeen seen ns"
  by (induction ns arbitrary: seen) auto

lemma buildPlayerIdMap_eq:
  "buildPlayerIdMap (Some content) =
   zip [0..<length (firstSeen [] (rowCivNames content))] (firstSeen [] (rowCivNames content))"
proof -
  let ?ds = "firstSeen [] (rowCivNames content)"
  have f: "foldl playerIdStep [] (tl (fileLines content)) = zip ?ds [0..<length ?ds]"
    using foldl_nameStep [of "[]" "rowCivNames content"]
    by (simp add: foldl_playerIdStep rowCivNames_def)
  have inv: "foldl (\<lambda>playerMap (civName, playerId). mapSet playerMap playerId civName) []
     (zip ?ds [0..<length ?ds]) = zip [0..<length ?ds] ?ds"
    using foldl_invert [of "[]" 0 ?ds] by simp
  show ?thesis
  proof (cases "length (fileLines content) < 2")
    case True
    then have "tl (fileLines content) = []"
      by (cases "fileLines content") auto
    then have "rowCivNames content = []" by (simp add: rowCivNames_def)
    then show ?thesis using True by (simp add: buildPlayerIdMap_def)
  next
    case False
    then show ?thesis using f inv by (simp add: buildPlayerIdMap_def Let_def)
  qed
qed

lemma rowCivNames_statsExample:
  "rowCivNames statsExample = [''ROME'', ''EGYPT'', ''ROME'', ''CHINA'', ''EGYPT'']"
  by code_simp

text \<open>
  Claim C4. The map that \<open>buildPlayerIdMap\<close> returns depends only on the order in which
  the civilization names are first seen in the data rows of the statistics file: it pairs
  the indices 0, 1, 2, ... with the distinct names in first-seen order. Rows that list
  \<open>[A, B, A, C, B]\<close> resolve to \<open>{0:A, 1:B, 2:C}\<close>, and one more row of a name that
  was seen before changes nothing.
\<close>

theorem buildPlayerIdMap_first_seen_order:
  "buildPlayerIdMap (Some content) =
     zip [0..<length (firstSeen [] (rowCivNames content))] (firstSeen [] (rowCivNames content))
   \<and> distinct (firstSeen [] (rowCivNames content))
   \<and> (rowCivNames content = [A, B, A, C, B] \<and> A \<noteq> B \<and> A \<noteq> C \<and> B \<noteq> C \<longrightarrow>
        buildPlayerIdMap (Some content) = [(0, A), (1, B), (2, C)])
   \<and> (rowCivNames content' = rowCivNames content @ [n] \<and> n \<in> set (rowCivNames content) \<longrightarrow>
        buildPlayerIdMap (Some content') = buildPlayerIdMap (Some content))"
proof (intro conjI impI)
  show "buildPlayerIdMap (Some content) =
     zip [0..<length (firstSeen [] (rowCivNames content))] (firstSeen [] (rowCivNames content))"
    by (rule buildPlayerIdMap_eq)
  show "distinct (firstSeen [] (rowCivNames content))"
    by (simp add: distinct_firstSeen)
next
  assume "rowCivNames content = [A, B, A, C, B] \<and> A \<noteq> B \<and> A \<noteq> C \<and> B \<noteq> C"
  then have "firstSeen [] (rowCivNames content) = [A, B, C]" by auto
  then show "buildPlayerIdMap (Some content) = [(0, A), (1, B), (2, C)]"
    by (simp add: buildPlayerIdMap_eq upt_rec)
next
  assume "rowCivNames content' = rowCivNames content @ [n] \<and> n \<in> set (rowCivNames content)"
  then have "firstSeen [] (rowCivNames content') = firstSeen [] (rowCivNames content)"
    by (simp add: firstSeen_repeat)
  then show "buildPlayerIdMap (Some content') = buildPlayerIdMap (Some content)"
    by (simp add: buildPlayerIdMap_eq)
qed

theorem buildPlayerIdMap_first_seen_order_witness:
  "rowCivNames statsExample = [''ROME'', ''EGYPT'', ''ROME'', ''CHINA'', ''EGYPT'']
   \<and> buildPlayerIdMap (Some statsExample) = [(0, ''ROME''), (1, ''EGYPT''), (2, ''CHINA'')]
   \<and> rowCivNames (statsExample @ ''4, CIVILIZATION_ROME, 4'') = rowCivNames statsExample @ [''ROME'']
   \<and> buildPlayerIdMap (Some (statsExample @ ''4, CIVILIZATION_ROME, 4'')) =
       buildPlayerIdMap (Some statsExample)"
proof -
  have r: "rowCivNames statsExample = [''ROME'', ''EGYPT'', ''ROME'', ''CHINA'', ''EGYPT'']"
    by (rule rowCivNames_statsExample)
  have r': "rowCivNames (statsExample @ ''4, CIVILIZATION_ROME, 4'') = rowCivNames statsExample @ [''ROME'']"
    by code_simp
  have m: "''ROME'' \<in> set (rowCivNames statsExample)"
    by (simp add: r)
  show ?thesis
    using buildPlayerIdMap_first_seen_order
      [of statsExample "''ROME''" "''EGYPT''" "''CHINA''" "statsExample @ ''4, CIVILIZATION_ROME, 4''" "''ROME''"]
      r r' m
    by simp
qed

section \<open>Properties of the diplomacy log\<close>

lemma applyUpdate_ids:
  "map (\<lambda>r. r\<lparr> threat := Some 0, trust := Some 0 \<rparr>) (applyUpdate rs u) =
   map (\<lambda>r. r\<lparr> threat := Some 0, trust := Some 0 \<rparr>) rs"
  by (induction rs u rule: applyUpdate.induct) auto

lemma foldl_applyUpdate_ids:
  "map (\<lambda>r. r\<lparr> threat := Some 0, trust := Some 0 \<rparr>) (foldl applyUpdate rs us) =
   map (\<lambda>r. r\<lparr> threat := Some 0, trust := Some 0 \<rparr>) rs"
  by (induction us arbitrary: rs) (simp_all add: applyUpdate_ids)

lemma cellRelation_fresh:
  "r \<in> set (cellRelation playerMap fromId parts col) \<Longrightarrow>
   fromPlayerId r \<noteq> Some (toPlayerId r) \<and> threat r = Some 0 \<and> trust r = Some 0"
  by (auto simp: cellRelation_def Let_def strictEq_def split: if_splits option.splits)

lemma rowRelations_fresh:
  "r \<in> set (rowRelations playerMap line) \<Longrightarrow>
   fromPlayerId r \<noteq> Some (toPlayerId r) \<and> threat r = Some 0 \<and> trust r = Some 0"
  by (auto simp: rowRelations_def Let_def split: if_splits dest: cellRelation_fresh)

lemma firstPass_fresh:
  "r \<in> set (concat (map (rowRelations playerMap) ls)) \<Longrightarrow>
   fromPlayerId r \<noteq> Some (toPlayerId r) \<and> threat r = Some 0 \<and> trust r = Some 0"
  by (auto dest: rowRelations_fresh)

lemma reset_idem:
  "threat r = Some 0 \<Longrightarrow> trust r = Some 0 \<Longrightarrow> r\<lparr> threat := Some 0, trust := Some 0 \<rparr> = r"
  by simp

lemma firstPass_reset:
  "map (\<lambda>r. r\<lparr> threat := Some 0, trust := Some 0 \<rparr>) (concat (map (rowRelations playerMap) ls)) =
   concat (map (rowRelations playerMap) ls)"
proof -
  have "\<forall>r \<in> set (concat (map (rowRelations playerMap) ls)).
          r\<lparr> threat := Some 0, trust := Some 0 \<rparr> = r"
    using firstPass_fresh reset_idem by blast
  then show ?thesis by (intro map_idI) blast
qed

text \<open>The relations of the first pass, which the second pass only annotates.\<close>

lemma parseDiplomacy_edges:
  "map (\<lambda>r. r\<lparr> threat := Some 0, trust := Some 0 \<rparr>) (parseDiplomacy statsFile (Some content)) =
   (if length (fileLines content) < 2 then []
    else concat (map (rowRelations (buildPlayerIdMap statsFile)) (tl (fileLines content))))"
  by (simp add: parseDiplomacy_def Let_def foldl_applyUpdate_ids firstPass_reset)

lemma parseDiplomacy_ids:
  assumes "r \<in> set (parseDiplomacy statsFile diplomacyFile)"
  shows "fromPlayerId r \<noteq> Some (toPlayerId r)"
proof (cases diplomacyFile)
  case None
  with assms show ?thesis by (simp add: parseDiplomacy_def)
next
  case (Some content)
  let ?reset = "\<lambda>r. r\<lparr> threat := Some 0, trust := Some 0 \<rparr>"
  have "?reset r \<in> set (map ?reset (parseDiplomacy statsFile (Some content)))"
    using assms Some by simp
  then have "?reset r \<in> set (concat (map (rowRelations (buildPlayerIdMap statsFile))
      (tl (fileLines content))))"
    by (simp only: parseDiplomacy_edges split: if_splits) simp
  from firstPass_fresh [OF this] show ?thesis by simp
qed

text \<open>
  Claim C9. No relation that \<open>parseDiplomacy\<close> returns goes from a player to itself, and a
  cell whose column makes the target player equal to the player of the row adds no
  relation.
\<close>

theorem parseDiplomacy_no_self_relation:
  "(\<forall>r \<in> set (parseDiplomacy statsFile diplomacyFile). fromPlayerId r \<noteq> Some (toPlayerId r))
   \<and> (strictEq fromId (Some (int col - 4)) \<longrightarrow> cellRelation playerMap fromId parts col = [])"
  using parseDiplomacy_ids
  by (auto simp: cellRelation_def Let_def split: option.splits)

lemma parseDiplomacy_example:
  "parseDiplomacy (Some statsExample) (Some diplomacyExample) =
     [\<lparr> fromCiv = ''Rome'', toCiv = ''Egypt'', fromPlayerId = Some 0, toPlayerId = 1,
         state = ''FRIENDLY'', score = Some 5, threat = Some (15 / 2), trust = Some 3 \<rparr>]"
  by code_simp

theorem parseDiplomacy_no_self_relation_witness:
  "parseDiplomacy (Some statsExample) (Some diplomacyExample) \<noteq> []
   \<and> fromPlayerId (hd (parseDiplomacy (Some statsExample) (Some diplomacyExample))) = Some 0
   \<and> toPlayerId (hd (parseDiplomacy (Some statsExample) (Some diplomacyExample))) = 1
   \<and> fromPlayerId (hd (parseDiplomacy (Some statsExample) (Some diplomacyExample)))
       \<noteq> Some (toPlayerId (hd (parseDiplomacy (Some statsExample) (Some diplomacyExample))))
   \<and> strictEq (Some 0) (Some (int 4 - 4))
   \<and> cellRelation [] (Some 0) (cells (fileLines diplomacyExample ! 1)) 4 = []"
proof -
  have ne: "parseDiplomacy (Some statsExample) (Some diplomacyExample) \<noteq> []"
    by (simp add: parseDiplomacy_example)
  then have mem: "hd (parseDiplomacy (Some statsExample) (Some diplomacyExample))
      \<in> set (parseDiplomacy (Some statsExample) (Some diplomacyExample))"
    by simp
  have eq: "strictEq (Some (0::int)) (Some (int 4 - 4))"
    by (simp add: strictEq_def)
  show ?thesis
    using parseDiplomacy_no_self_relation
      [of "Some statsExample" "Some diplomacyExample" "Some 0" 4 "[]"
          "cells (fileLines diplomacyExample ! 1)"] ne mem eq
    by (simp add: parseDiplomacy_example)
qed







lemma threatUpdates_example:
  "threatUpdates diplomacyExample = [(Some 0, 1, Some (15 / 2), Some 3)]"
  by code_simp





section \<open>Properties of the game history\<close>






















section \<open>Properties of the tag-value scanner\<close>

lemma searchAt_Some:
  "searchAt p k xs = Some r \<longleftrightarrow>
     k \<le> r \<and> r - k < length xs \<and> startsWith (drop (r - k) xs) p
     \<and> (\<forall>q < r - k. \<not> startsWith (drop q xs) p)"
proof (induction xs arbitrary: k)
  case Nil
  then show ?case by simp
next
  case (Cons x xs)
  show ?case
  proof (cases "startsWith (x # xs) p")
    case True
    have "r = k" if "k \<le> r" "\<forall>q < r - k. \<not> startsWith (drop q (x # xs)) p"
    proof (rule ccontr)
      assume "r \<noteq> k"
      then have "0 < r - k" using that(1) by simp
      then have "\<not> startsWith (drop 0 (x # xs)) p" using that(2) by blast
      then show False using True by simp
    qed
    then show ?thesis using True by auto
  next
    case False
    have "searchAt p k (x # xs) = Some r \<longleftrightarrow> searchAt p (Suc k) xs = Some r"
      using False by simp
    also have "\<dots> \<longleftrightarrow> Suc k \<le> r \<and> r - Suc k < length xs \<and> startsWith (drop (r - Suc k) xs) p
     \<and> (\<forall>q < r - Suc k. \<not> startsWith (drop q xs) p)"
      by (rule Cons.IH)
    also have "\<dots> \<longleftrightarrow> k \<le> r \<and> r - k < length (x # xs) \<and> startsWith (drop (r - k) (x # xs)) p
     \<and> (\<forall>q < r - k. \<not> startsWith (drop q (x # xs)) p)"
    proof (cases "r \<le> k")
      case True
      then show ?thesis using False by auto
    next
      case gt: False
      then obtain d where d: "r - k = Suc d" "r - Suc k = d" by (cases "r - k") auto
      have "(\<forall>q < Suc d. \<not> startsWith (drop q (x # xs)) p) \<longleftrightarrow> (\<forall>q < d. \<not> startsWith (drop q xs) p)"
        using False by (auto simp: less_Suc_eq_0_disj)
      then show ?thesis using gt d by auto
    qed
    finally show ?thesis .
  qed
qed

text \<open>\<open>indexOf\<close> finds the first occurrence at or after the position where it starts.\<close>

lemma indexOf_firstFrom:
  assumes "p \<noteq> []"
  shows "indexOf xs p from = Some pos \<longleftrightarrow> firstOccurrenceFrom xs p from pos"
proof -
  have inside: "q < length xs" if "substring xs q (q + length p) = p" for q
    using that assms by (cases "q < length xs") (auto simp: substring_def)
  have shift: "(\<forall>q < pos - from. \<not> startsWith (drop q (drop from xs)) p) \<longleftrightarrow>
      (\<forall>q \<in> set [from..<pos]. substring xs q (q + length p) \<noteq> p)" if "from \<le> pos"
  proof
    assume l: "\<forall>q < pos - from. \<not> startsWith (drop q (drop from xs)) p"
    show "\<forall>q \<in> set [from..<pos]. substring xs q (q + length p) \<noteq> p"
    proof
      fix q assume "q \<in> set [from..<pos]"
      then have "q - from < pos - from" "q - from + from = q" by auto
      with l have "\<not> startsWith (drop (q - from) (drop from xs)) p" by blast
      then show "substring xs q (q + length p) \<noteq> p"
        using \<open>q - from + from = q\<close> by (simp add: startsWith_def substring_def)
    qed
  next
    assume r: "\<forall>q \<in> set [from..<pos]. substring xs q (q + length p) \<noteq> p"
    show "\<forall>q < pos - from. \<not> startsWith (drop q (drop from xs)) p"
    proof (intro allI impI)
      fix q assume "q < pos - from"
      then have "q + from \<in> set [from..<pos]" by auto
      with r have "substring xs (q + from) (q + from + length p) \<noteq> p" by blast
      then show "\<not> startsWith (drop q (drop from xs)) p"
        by (simp add: startsWith_def substring_def)
    qed
  qed
  show ?thesis
  proof
    assume "indexOf xs p from = Some pos"
    then have "from \<le> pos \<and> pos - from < length (drop from xs)
        \<and> startsWith (drop (pos - from) (drop from xs)) p
        \<and> (\<forall>q < pos - from. \<not> startsWith (drop q (drop from xs)) p)"
      unfolding indexOf_def searchAt_Some .
    then have s: "from \<le> pos" "startsWith (drop (pos - from) (drop from xs)) p"
      "\<forall>q < pos - from. \<not> startsWith (drop q (drop from xs)) p"
      by blast+
    have "drop (pos - from) (drop from xs) = drop pos xs"
      using s(1) by simp
    then have "substring xs pos (pos + length p) = p"
      using s(2) by (simp add: startsWith_def substring_def)
    then show "firstOccurrenceFrom xs p from pos"
      using s(1,3) shift unfolding firstOccurrenceFrom_def by blast
  next
    assume f: "firstOccurrenceFrom xs p from pos"
    then have le: "from \<le> pos" and m: "substring xs pos (pos + length p) = p"
      and n: "\<forall>q \<in> set [from..<pos]. substring xs q (q + length p) \<noteq> p"
      by (simp_all add: firstOccurrenceFrom_def)
    have "pos - from < length (drop from xs)"
      using inside [OF m] le by simp
    moreover have "startsWith (drop (pos - from) (drop from xs)) p"
      using m le by (simp add: startsWith_def substring_def)
    moreover have "\<forall>q < pos - from. \<not> startsWith (drop q (drop from xs)) p"
      using le n shift by blast
    ultimately show "indexOf xs p from = Some pos"
      using le unfolding indexOf_def searchAt_Some by blast
  qed
qed

lemma indexOf_first:
  assumes "p \<noteq> []"
  shows "indexOf xs p 0 = Some pos \<longleftrightarrow> firstOccurrence xs p pos"
  using indexOf_firstFrom [OF assms] by (simp add: firstOccurrence_def)

lemma take4_nth:
  "off + 4 \<le> length xs \<Longrightarrow>
   take 4 (drop off xs) = [xs ! off, xs ! (off + 1), xs ! (off + 2), xs ! (off + 3)]"
  by (auto simp: list_eq_iff_nth_eq nth_Cons' numeral_eq_Suc less_Suc_eq)

lemma take2_nth:
  "off + 2 \<le> length xs \<Longrightarrow> take 2 (drop off xs) = [xs ! off, xs ! (off + 1)]"
  by (auto simp: list_eq_iff_nth_eq nth_Cons' numeral_eq_Suc less_Suc_eq)

lemma readUInt32LE_value:
  "off + 4 \<le> length buffer \<Longrightarrow> e = off + 4 \<Longrightarrow>
   readUInt32LE buffer off = Inr (leValue (substring buffer off e))"
  by (simp add: readUInt32LE_def leValue_def substring_def take4_nth)

lemma readUInt16LE_value:
  "off + 2 \<le> length buffer \<Longrightarrow> e = off + 2 \<Longrightarrow>
   readUInt16LE buffer off = Inr (leValue (substring buffer off e))"
  by (simp add: readUInt16LE_def leValue_def substring_def take2_nth)

lemma readMarkerValue_int:
  assumes "indexOf buffer marker 0 = Some p"
    and "leValue (substring buffer (p + 4) (p + 8)) = 2" and "p + 20 \<le> length buffer"
  shows "readMarkerValue utf8 buffer marker =
           Inr (Some (2, NumberData (leValue (substring buffer (p + 16) (p + 20)))))"
proof -
  have t: "readUInt32LE buffer (p + 4) = Inr 2"
    using readUInt32LE_value [of "p + 4" buffer "p + 8"] assms(2,3) by simp
  have v: "readUInt32LE buffer (p + 16) = Inr (leValue (substring buffer (p + 16) (p + 20)))"
    using readUInt32LE_value [of "p + 16" buffer "p + 20"] assms(3) by simp
  show ?thesis by (simp add: readMarkerValue_def assms(1) t v)
qed

lemma readMarkerValue_string:
  assumes "indexOf buffer marker 0 = Some p" and "utf8 [] = []"
    and "leValue (substring buffer (p + 4) (p + 8)) = 5"
    and "p + 16 + (leValue (substring buffer (p + 8) (p + 10)) - 1) \<le> length buffer"
  shows "readMarkerValue utf8 buffer marker =
           Inr (Some (5, StringData (utf8 (substring buffer (p + 16)
             (p + 16 + (leValue (substring buffer (p + 8) (p + 10)) - 1))))))"
proof -
  let ?L = "leValue (substring buffer (p + 8) (p + 10))"
  have t: "readUInt32LE buffer (p + 4) = Inr 5"
    using readUInt32LE_value [of "p + 4" buffer "p + 8"] assms(3,4) by simp
  have l: "readUInt16LE buffer (p + 8) = Inr ?L"
    using readUInt16LE_value [of "p + 8" buffer "p + 10"] assms(4) by simp
  have s0: "toStringUtf8 utf8 buffer (p + 16) (p + 16 + ?L - 1) =
      utf8 (substring buffer (p + 16) (p + 16 + (?L - 1)))"
  proof (cases "?L \<le> 1")
    case True
    then show ?thesis by (simp add: toStringUtf8_def substring_def assms(2))
  next
    case False
    then have e: "p + 16 + ?L - 1 = p + 16 + (?L - 1)"
      by simp
    have c: "\<not> (p + 16 + (?L - 1) \<le> p + 16 \<or> length buffer \<le> p + 16)"
      using False assms(4) by simp
    show ?thesis
      unfolding toStringUtf8_def e using c by (simp only: if_False)
  qed
  have s: "toStringUtf8 utf8 buffer (p + 16) e =
      utf8 (substring buffer (p + 16) (p + 16 + (?L - 1)))" if "e = p + 16 + ?L - 1" for e
    unfolding that by (rule s0)
  show ?thesis
    by (simp add: readMarkerValue_def assms(1) t l s)
qed

text \<open>
  Claim C3. When the first occurrence of the marker is at offset \<open>p\<close> and the 4-byte
  little-endian type tag at \<open>p + 4\<close> is 2, \<open>readMarkerValue\<close> returns the 4-byte
  little-endian integer at \<open>p + 16\<close>; when the tag is 5 and the 2-byte little-endian
  length at \<open>p + 8\<close> is \<open>L\<close>, it returns the decoding of the \<open>L - 1\<close> bytes from \<open>p + 16\<close>
  on, so without the null byte that ends the \<open>L\<close> bytes. The bytes that the claim names
  are in the buffer, and decoding no bytes gives the empty string.
\<close>

theorem readMarkerValue_offset_exact:
  assumes "marker \<noteq> []" and "firstOccurrence buffer marker p" and "utf8 [] = []"
  shows "(leValue (substring buffer (p + 4) (p + 8)) = 2 \<and> p + 20 \<le> length buffer \<longrightarrow>
            readMarkerValue utf8 buffer marker =
              Inr (Some (2, NumberData (leValue (substring buffer (p + 16) (p + 20))))))
       \<and> (leValue (substring buffer (p + 4) (p + 8)) = 5
            \<and> p + 16 + (leValue (substring buffer (p + 8) (p + 10)) - 1) \<le> length buffer \<longrightarrow>
            readMarkerValue utf8 buffer marker =
              Inr (Some (5, StringData (utf8 (substring buffer (p + 16)
                (p + 16 + (leValue (substring buffer (p + 8) (p + 10)) - 1)))))))"
proof -
  have i: "indexOf buffer marker 0 = Some p"
    using assms(1,2) by (simp add: indexOf_first)
  show ?thesis
    using readMarkerValue_int [OF i, of utf8]
      readMarkerValue_string [of buffer marker p utf8, OF i assms(3)] by blast
qed

text \<open>The stand-in decoder gives back the string whose bytes it reads.\<close>

lemma of_char_byte: "unat (of_nat (of_char c) :: byte) = of_char c"
proof -
  have "(of_char c :: nat) < 256" by (rule nat_of_char_less_256)
  then show ?thesis by (simp add: unat_of_nat)
qed

lemma asciiText_bytesOf: "asciiText (bytesOf s) = s"
  by (induction s) (simp_all add: asciiText_def bytesOf_def of_char_byte)

lemma length_bytesOf: "length (bytesOf s) = length s"
  by (simp add: bytesOf_def)

lemma markerBuffer_fact1: "firstOccurrence intMarkerBuffer GAME_SPEED 4"
  by code_simp

lemma markerBuffer_fact2: "leValue (substring intMarkerBuffer (4 + 4) (4 + 8)) = 2"
  by (simp add: leValue_def substring_def intMarkerBuffer_def GAME_SPEED_def bytesOf_def)

lemma markerBuffer_fact3: "4 + 20 \<le> length intMarkerBuffer"
  by code_simp

lemma markerBuffer_fact4: "leValue (substring intMarkerBuffer (4 + 16) (4 + 20)) = 300"
  by (simp add: leValue_def substring_def intMarkerBuffer_def GAME_SPEED_def bytesOf_def)

lemma markerBuffer_fact5: "firstOccurrence stringMarkerBuffer GAME_SPEED 4"
  by code_simp

lemma markerBuffer_fact6: "leValue (substring stringMarkerBuffer (4 + 4) (4 + 8)) = 5"
  by (simp add: leValue_def substring_def stringMarkerBuffer_def GAME_SPEED_def bytesOf_def)

lemma markerBuffer_fact7: "leValue (substring stringMarkerBuffer (4 + 8) (4 + 10)) = 6"
  by (simp add: leValue_def substring_def stringMarkerBuffer_def GAME_SPEED_def bytesOf_def)

lemma markerBuffer_fact8: "4 + 16 + (6 - 1) \<le> length stringMarkerBuffer"
  by code_simp

lemma markerBuffer_fact9: "asciiText (substring stringMarkerBuffer (4 + 16) (4 + 16 + (6 - 1))) = ''QUICK''"
  by code_simp

lemmas markerBuffers_facts =
  markerBuffer_fact1 markerBuffer_fact2 markerBuffer_fact3 markerBuffer_fact4 markerBuffer_fact5 markerBuffer_fact6 markerBuffer_fact7 markerBuffer_fact8 markerBuffer_fact9

theorem readMarkerValue_offset_exact_witness:
  "GAME_SPEED \<noteq> [] \<and> asciiText [] = []
   \<and> firstOccurrence intMarkerBuffer GAME_SPEED 4
   \<and> leValue (substring intMarkerBuffer (4 + 4) (4 + 8)) = 2 \<and> 4 + 20 \<le> length intMarkerBuffer
   \<and> readMarkerValue asciiText intMarkerBuffer GAME_SPEED = Inr (Some (2, NumberData 300))
   \<and> firstOccurrence stringMarkerBuffer GAME_SPEED 4
   \<and> leValue (substring stringMarkerBuffer (4 + 4) (4 + 8)) = 5
   \<and> leValue (substring stringMarkerBuffer (4 + 8) (4 + 10)) = 6
   \<and> 4 + 16 + (6 - 1) \<le> length stringMarkerBuffer
   \<and> readMarkerValue asciiText stringMarkerBuffer GAME_SPEED = Inr (Some (5, StringData ''QUICK''))"
proof -
  have m: "GAME_SPEED \<noteq> []" by (simp add: GAME_SPEED_def)
  have u: "asciiText [] = []" by (simp add: asciiText_def)
  have a: "readMarkerValue asciiText intMarkerBuffer GAME_SPEED = Inr (Some (2, NumberData 300))"
    using readMarkerValue_offset_exact [of GAME_SPEED intMarkerBuffer 4 asciiText,
        OF m markerBuffers_facts(1) u] markerBuffers_facts(2,3,4)
    by simp
  have b: "readMarkerValue asciiText stringMarkerBuffer GAME_SPEED = Inr (Some (5, StringData ''QUICK''))"
    using readMarkerValue_offset_exact [of GAME_SPEED stringMarkerBuffer 4 asciiText,
        OF m markerBuffers_facts(5) u] markerBuffers_facts(6,7,8,9)
    by simp
  show ?thesis
    by (intro conjI) (rule m u a b markerBuffers_facts)+
qed


text \<open>
  The loop of \<open>decompressGameData\<close> undoes \<open>frameChunks\<close>: whatever follows the framed
  stream, the assembled data start with the stream.
\<close>

lemma collectChunks_shift:
  "collectChunks (a @ b) (length a + p) = collectChunks b p"
proof (induction b p rule: collectChunks.induct)
  case (1 b p)
  show ?case
  proof (cases "p < length b")
    case True
    have "collectChunks (a @ b) (length a + p) =
        substring (a @ b) (length a + p) (length a + p + chunkSize)
          # collectChunks (a @ b) (length a + p + chunkSize + 4)"
      using True by (subst collectChunks.simps) simp
    also have "substring (a @ b) (length a + p) (length a + p + chunkSize) = substring b p (p + chunkSize)"
      by (simp add: substring_def)
    also have "collectChunks (a @ b) (length a + p + chunkSize + 4) = collectChunks b (p + chunkSize + 4)"
      using "1.IH" [OF True] by (simp add: add.assoc)
    finally show ?thesis using True by (subst (2) collectChunks.simps) simp
  next
    case False
    then show ?thesis
      by (subst collectChunks.simps, subst (2) collectChunks.simps) simp
  qed
qed

lemma collectChunks_head:
  "xs \<noteq> [] \<Longrightarrow> collectChunks xs 0 = take chunkSize xs # collectChunks xs (chunkSize + 4)"
  by (subst collectChunks.simps) (simp add: substring_def)

lemma deframe:
  assumes "\<forall>i. length (gap i) = 4"
  shows "\<exists>t. concat (collectChunks (frameChunks gap i z @ tail) 0) = z @ t"
  using assms
proof (induction gap i z rule: frameChunks.induct)
  case (1 gap i z)
  have g: "length (gap i) = 4" using "1.prems" by simp
  show ?case
  proof (cases "length z \<le> chunkSize")
    case True
    then have f: "frameChunks gap i z = z @ gap i"
      by (subst frameChunks.simps) simp
    have ne: "z @ gap i @ tail \<noteq> []" using g by auto
    have "concat (collectChunks (z @ gap i @ tail) 0) =
        take chunkSize (z @ gap i @ tail) @ concat (collectChunks (z @ gap i @ tail) (chunkSize + 4))"
      using collectChunks_head [OF ne] by simp
    also have "take chunkSize (z @ gap i @ tail) = z @ take (chunkSize - length z) (gap i @ tail)"
      using True by simp
    finally show ?thesis by (simp add: f)
  next
    case False
    let ?rest = "frameChunks gap (Suc i) (drop chunkSize z)"
    have f: "frameChunks gap i z = take chunkSize z @ gap i @ ?rest"
      using False by (subst frameChunks.simps) simp
    have len: "length (take chunkSize z @ gap i) = chunkSize + 4"
      using False g by simp
    obtain t where t: "concat (collectChunks (?rest @ tail) 0) = drop chunkSize z @ t"
      using "1.IH" [OF False "1.prems"] by blast
    let ?x = "(take chunkSize z @ gap i) @ (?rest @ tail)"
    have ne: "?x \<noteq> []" using g by auto
    have "collectChunks ?x (chunkSize + 4) = collectChunks (?rest @ tail) 0"
      using collectChunks_shift [of "take chunkSize z @ gap i" "?rest @ tail" 0] len by simp
    moreover have "take chunkSize ?x = take chunkSize z"
      using False by simp
    ultimately have "concat (collectChunks ?x 0) = take chunkSize z @ drop chunkSize z @ t"
      using collectChunks_head [OF ne] t by simp
    moreover have "take chunkSize z @ drop chunkSize z @ t = z @ t"
      by (simp only: append_assoc [symmetric] append_take_drop_id)
    ultimately show ?thesis by (simp add: f)
  qed
qed

lemma length_frameChunks_pos:
  assumes "\<forall>i. length (gap i) = 4"
  shows "0 < length (frameChunks gap i z)"
proof -
  have "length (gap i) = 4" using assms by simp
  then have "gap i \<noteq> []" by auto
  then show ?thesis by (subst frameChunks.simps) simp
qed

lemma decompressGameData_deframed:
  assumes gaps: "\<forall>i. length (gap i) = 4"
    and buf: "buffer = pre @ frameChunks gap 0 (deflate plain) @ COMPRESSED_DATA_END @ post"
    and hdr: "indexOf buffer ZLIB_HEADER 200000 = Some (length pre)"
    and snt: "indexOf buffer COMPRESSED_DATA_END (length pre) =
                Some (length pre + length (frameChunks gap 0 (deflate plain)))"
    and codec: "\<forall>t. unzipSync (deflate plain @ t) = Some plain"
  shows "decompressGameData unzipSync buffer = Some plain"
proof -
  let ?f = "frameChunks gap 0 (deflate plain)"
  have pos: "0 < length ?f" using gaps by (rule length_frameChunks_pos)
  have chunk: "substring buffer (length pre) (length pre + length ?f + length COMPRESSED_DATA_END) =
      ?f @ COMPRESSED_DATA_END"
    by (simp add: buf substring_def)
  obtain t where t: "concat (collectChunks (?f @ COMPRESSED_DATA_END) 0) = deflate plain @ t"
    using deframe [OF gaps] by blast
  show ?thesis
    using pos codec by (simp add: decompressGameData_def hdr snt chunk t Let_def)
qed


lemma decompressGameData_assembled:
  "decompressGameData unzipSync buffer =
     (case assembledData buffer of None \<Rightarrow> None | Some d \<Rightarrow> unzipSync d)"
  by (simp add: decompressGameData_def assembledData_def Let_def split: option.splits)

lemma searchAt_skip:
  "p \<noteq> [] \<Longrightarrow> hd p \<notin> set xs \<Longrightarrow> searchAt p pos (xs @ ys) = searchAt p (pos + length xs) ys"
proof (induction xs arbitrary: pos)
  case Nil
  then show ?case by simp
next
  case (Cons x xs)
  have "\<not> startsWith ((x # xs) @ ys) p"
    using Cons.prems by (cases p) (auto simp: startsWith_def)
  then show ?case using Cons by simp
qed

lemma searchAt_here: "startsWith (x # xs) p \<Longrightarrow> searchAt p pos (x # xs) = Some pos"
  by simp

lemma stream_take: "take chunkSize (standInDeflate longPlain) = ZLIB_HEADER @ replicate 65534 0x41"
  by (simp add: standInDeflate_def longPlain_def ZLIB_HEADER_def chunkSize_def)

lemma stream_drop: "drop chunkSize (standInDeflate longPlain) = replicate 5 0x41 @ [0xFE]"
  by (simp add: standInDeflate_def longPlain_def ZLIB_HEADER_def chunkSize_def)

lemma stream_length: "length (standInDeflate longPlain) = 65542"
  by (simp add: standInDeflate_def longPlain_def ZLIB_HEADER_def)

lemma stream_framed:
  "frameChunks gap 0 (standInDeflate longPlain) =
     (ZLIB_HEADER @ replicate 65534 0x41) @ gap 0 @ (replicate 5 0x41 @ [0xFE]) @ gap (Suc 0)"
proof -
  have "frameChunks gap 0 (standInDeflate longPlain) =
      take chunkSize (standInDeflate longPlain) @ gap 0
        @ frameChunks gap (Suc 0) (drop chunkSize (standInDeflate longPlain))"
    by (subst frameChunks.simps) (simp add: stream_length chunkSize_def)
  also have "frameChunks gap (Suc 0) (drop chunkSize (standInDeflate longPlain)) =
      drop chunkSize (standInDeflate longPlain) @ gap (Suc 0)"
    by (subst frameChunks.simps) (simp add: stream_length chunkSize_def)
  finally show ?thesis by (simp only: stream_take stream_drop)
qed

lemma takeWhile_until: "c \<notin> set xs \<Longrightarrow> takeWhile (\<lambda>b. b \<noteq> c) (xs @ c # t) = xs"
  by (induction xs) auto

lemma codec_ok:
  "0xFE \<notin> set plain \<Longrightarrow> standInInflate (standInDeflate plain @ t) = Some plain"
  by (simp add: standInInflate_def standInDeflate_def ZLIB_HEADER_def startsWith_def takeWhile_until)

lemma longPlain_codec: "\<forall>t. standInInflate (standInDeflate longPlain @ t) = Some longPlain"
  by (simp add: codec_ok longPlain_def)

lemma plain_buffer:
  "framedSave plainGap = replicate 200000 0 @ frameChunks plainGap 0 (standInDeflate longPlain)
     @ COMPRESSED_DATA_END @ []"
  by (simp add: framedSave_def)

lemma plain_hdr: "indexOf (framedSave plainGap) ZLIB_HEADER 200000 = Some (length (replicate 200000 (0::byte)))"
  by (simp add: framedSave_def stream_framed indexOf_def ZLIB_HEADER_def startsWith_def)

lemma plain_framed_length: "length (frameChunks plainGap 0 (standInDeflate longPlain)) = 65550"
  by (simp add: stream_framed plainGap_def ZLIB_HEADER_def)

lemma plain_snt:
  "indexOf (framedSave plainGap) COMPRESSED_DATA_END (length (replicate 200000 (0::byte))) =
     Some (length (replicate 200000 (0::byte)) + length (frameChunks plainGap 0 (standInDeflate longPlain)))"
proof -
  let ?f = "frameChunks plainGap 0 (standInDeflate longPlain)"
  have d: "drop 200000 (framedSave plainGap) = ?f @ COMPRESSED_DATA_END"
    by (simp add: framedSave_def)
  have z: "hd COMPRESSED_DATA_END \<notin> set ?f"
    by (simp add: stream_framed plainGap_def ZLIB_HEADER_def COMPRESSED_DATA_END_def)
  have "searchAt COMPRESSED_DATA_END 200000 (?f @ COMPRESSED_DATA_END) =
      searchAt COMPRESSED_DATA_END (200000 + length ?f) COMPRESSED_DATA_END"
    by (rule searchAt_skip [OF _ z]) (simp add: COMPRESSED_DATA_END_def)
  also have "\<dots> = Some (200000 + length ?f)"
    by (simp add: COMPRESSED_DATA_END_def startsWith_def)
  finally show ?thesis by (simp add: indexOf_def d)
qed

lemma ZLIB_HEADER_nonempty: "ZLIB_HEADER \<noteq> []"
  by (simp add: ZLIB_HEADER_def)

lemma COMPRESSED_DATA_END_nonempty: "COMPRESSED_DATA_END \<noteq> []"
  by (simp add: COMPRESSED_DATA_END_def)

lemma sentinel_hdr: "indexOf (framedSave sentinelGap) ZLIB_HEADER 200000 = Some 200000"
  by (simp add: framedSave_def stream_framed indexOf_def ZLIB_HEADER_def startsWith_def)

lemma sentinel_snt: "indexOf (framedSave sentinelGap) COMPRESSED_DATA_END 200000 = Some 265536"
proof -
  let ?a = "ZLIB_HEADER @ replicate 65534 (0x41 :: byte)"
  let ?r = "COMPRESSED_DATA_END @ (replicate 5 0x41 @ [0xFE]) @ COMPRESSED_DATA_END @ COMPRESSED_DATA_END"
  have d: "drop 200000 (framedSave sentinelGap) = ?a @ ?r"
    by (simp add: framedSave_def stream_framed sentinelGap_def)
  have z: "hd COMPRESSED_DATA_END \<notin> set ?a"
    by (simp add: ZLIB_HEADER_def COMPRESSED_DATA_END_def)
  have "searchAt COMPRESSED_DATA_END 200000 (?a @ ?r) =
      searchAt COMPRESSED_DATA_END (200000 + length ?a) ?r"
    by (rule searchAt_skip [OF _ z]) (simp add: COMPRESSED_DATA_END_def)
  also have "\<dots> = Some 265536"
    by (simp add: COMPRESSED_DATA_END_def ZLIB_HEADER_def startsWith_def)
  finally show ?thesis by (simp add: indexOf_def d)
qed

lemma sentinel_chunk:
  "substring (framedSave sentinelGap) 200000 (265536 + length COMPRESSED_DATA_END) =
     ZLIB_HEADER @ replicate 65534 0x41 @ COMPRESSED_DATA_END"
  by (simp add: framedSave_def stream_framed sentinelGap_def substring_def ZLIB_HEADER_def
      COMPRESSED_DATA_END_def)

lemma sentinel_chunks:
  "collectChunks (ZLIB_HEADER @ replicate 65534 0x41 @ COMPRESSED_DATA_END) 0 =
     [ZLIB_HEADER @ replicate 65534 0x41]"
proof -
  let ?c = "ZLIB_HEADER @ replicate 65534 (0x41 :: byte) @ COMPRESSED_DATA_END"
  have "collectChunks ?c 0 = take chunkSize ?c # collectChunks ?c (chunkSize + 4)"
    by (rule collectChunks_head) (simp add: ZLIB_HEADER_def)
  moreover have "take chunkSize ?c = ZLIB_HEADER @ replicate 65534 0x41"
    by (simp add: chunkSize_def ZLIB_HEADER_def)
  moreover have "collectChunks ?c (chunkSize + 4) = []"
    by (subst collectChunks.simps) (simp add: chunkSize_def ZLIB_HEADER_def COMPRESSED_DATA_END_def)
  ultimately show ?thesis by simp
qed

lemma sentinel_assembled:
  "assembledData (framedSave sentinelGap) = Some (ZLIB_HEADER @ replicate 65534 0x41)"
  by (simp add: assembledData_def sentinel_hdr sentinel_snt sentinel_chunk sentinel_chunks)

lemma sentinel_inflate:
  "standInInflate (ZLIB_HEADER @ replicate 65534 0x41) = Some (replicate 65534 0x41)"
  by (simp add: standInInflate_def ZLIB_HEADER_def startsWith_def takeWhile_replicate)

lemma sentinel_result:
  "decompressGameData standInInflate (framedSave sentinelGap) = Some (replicate 65534 0x41)"
  by (simp add: decompressGameData_assembled sentinel_assembled sentinel_inflate)

lemma sentinel_short: "replicate 65534 (0x41 :: byte) \<noteq> longPlain"
proof
  assume "replicate 65534 (0x41 :: byte) = longPlain"
  then have "length (replicate 65534 (0x41 :: byte)) = length longPlain" by (rule arg_cong)
  then show False by (simp add: longPlain_def)
qed

text \<open>
  Claim C2, as stated, fails: the framing bytes are arbitrary, so they may be those of
  the end sentinel, and the search for the sentinel stops at the framing bytes behind the
  first chunk. Of the stream of 65542 bytes only the first 65536 reach the inflater, and
  the result is the first 65534 bytes of the plain text of 65539 bytes, although the
  stream alone inflates to the plain text.
\<close>

theorem decompressGameData_framing_counterexample:
  "length (sentinelGap 0) = 4
   \<and> standInInflate (standInDeflate longPlain) = Some longPlain
   \<and> indexOf (framedSave sentinelGap) ZLIB_HEADER 200000 = Some 200000
   \<and> indexOf (framedSave sentinelGap) COMPRESSED_DATA_END 200000 = Some 265536
   \<and> assembledData (framedSave sentinelGap) = Some (ZLIB_HEADER @ replicate 65534 0x41)
   \<and> decompressGameData standInInflate (framedSave sentinelGap) = Some (replicate 65534 0x41)
   \<and> decompressGameData standInInflate (framedSave sentinelGap) \<noteq> Some longPlain"
proof -
  have "length (sentinelGap 0) = 4"
    by (simp add: sentinelGap_def COMPRESSED_DATA_END_def)
  moreover have "standInInflate (standInDeflate longPlain) = Some longPlain"
    using longPlain_codec [rule_format, of "[]"] by simp
  ultimately show ?thesis
    using sentinel_short
    by (simp only: sentinel_hdr sentinel_snt sentinel_assembled sentinel_result simp_thms
        option.inject)
qed

text \<open>
  Claim C2, amended. Let the stream of the plain text be split into chunks of 65536
  bytes, the last one possibly shorter, each followed by 4 framing bytes, and let the
  buffer hold the framed stream and then the end sentinel. If the first zlib header at or
  after offset 200000 is the start of the framed stream, the first end sentinel at or
  after that start is the one behind the framed stream, and the inflater returns the
  plain text from the stream whatever bytes follow it, then \<open>decompressGameData\<close>
  returns the plain text.
\<close>

theorem decompressGameData_round_trip:
  assumes "\<forall>i. length (gap i) = 4"
    and "buffer = pre @ frameChunks gap 0 (deflate plain) @ COMPRESSED_DATA_END @ post"
    and "firstOccurrenceFrom buffer ZLIB_HEADER 200000 (length pre)"
    and "firstOccurrenceFrom buffer COMPRESSED_DATA_END (length pre)
           (length pre + length (frameChunks gap 0 (deflate plain)))"
    and "\<forall>t. unzipSync (deflate plain @ t) = Some plain"
  shows "decompressGameData unzipSync buffer = Some plain"
proof -
  have h: "indexOf buffer ZLIB_HEADER 200000 = Some (length pre)"
    using assms(3) by (simp add: indexOf_firstFrom ZLIB_HEADER_def)
  have s: "indexOf buffer COMPRESSED_DATA_END (length pre) =
      Some (length pre + length (frameChunks gap 0 (deflate plain)))"
    using assms(4) by (simp add: indexOf_firstFrom COMPRESSED_DATA_END_def)
  show ?thesis
    using assms(1,2) h s assms(5) by (rule decompressGameData_deframed)
qed

theorem decompressGameData_round_trip_witness:
  "length (plainGap 0) = 4
   \<and> firstOccurrenceFrom (framedSave plainGap) ZLIB_HEADER 200000 200000
   \<and> firstOccurrenceFrom (framedSave plainGap) COMPRESSED_DATA_END 200000 265550
   \<and> standInInflate (standInDeflate longPlain @ [1, 2, 3]) = Some longPlain
   \<and> length longPlain = 65539
   \<and> decompressGameData standInInflate (framedSave plainGap) = Some longPlain"
proof -
  have g: "\<forall>i. length (plainGap i) = 4" by (simp add: plainGap_def)
  have h: "firstOccurrenceFrom (framedSave plainGap) ZLIB_HEADER 200000
      (length (replicate 200000 (0::byte)))"
    using plain_hdr by (simp only: indexOf_firstFrom [OF ZLIB_HEADER_nonempty])
  have s: "firstOccurrenceFrom (framedSave plainGap) COMPRESSED_DATA_END
      (length (replicate 200000 (0::byte)))
      (length (replicate 200000 (0::byte)) + length (frameChunks plainGap 0 (standInDeflate longPlain)))"
    using plain_snt by (simp only: indexOf_firstFrom [OF COMPRESSED_DATA_END_nonempty])
  have r: "decompressGameData standInInflate (framedSave plainGap) = Some longPlain"
    using decompressGameData_round_trip [of plainGap "framedSave plainGap" "replicate 200000 0"
        standInDeflate longPlain "[]" standInInflate, OF g plain_buffer h s longPlain_codec] .
  have l: "length longPlain = 65539" by (simp add: longPlain_def)
  show ?thesis
    using g h s r l longPlain_codec [rule_format, of "[1, 2, 3]"]
    by (simp add: plain_framed_length)
qed

section \<open>Properties of the decompressed-content analyzer\<close>












section \<open>Properties of \<open>parseSaveFile\<close>\<close>













lemma matchAutoSave_save: "matchAutoSave ''save'' = None"
  by code_simp

lemma identifyPlayer_empty: "identifyPlayer [] None = (None, [])"
  by (simp add: identifyPlayer_def)









lemma parseSaveFile_civs:
  assumes "parseSaveFile utf8 unzipSync fileName buffer = Inr gs"
  shows "gs_otherCivs gs = snd (identifyPlayer (saveCivs utf8 buffer) (saveInfo utf8 unzipSync buffer))"
    and "gs_civilization gs =
           (case fst (identifyPlayer (saveCivs utf8 buffer) (saveInfo utf8 unzipSync buffer)) of
              Some p \<Rightarrow> if ci_civilization p = [] then ''Unknown'' else ci_civilization p
            | None \<Rightarrow> ''Unknown'')"
  using assms
  by (auto simp: parseSaveFile_def Let_def saveCivs_def saveInfo_def split: if_splits sum.splits)

lemma findIndex_Some: "findIndex P xs = Some i \<Longrightarrow> i < length xs \<and> P (xs ! i)"
  by (induction xs arbitrary: i) (auto split: if_splits)

lemma identifyPlayer_matched:
  assumes "cityMatch allCivs info = Some i"
  shows "identifyPlayer allCivs info =
           (Some ((allCivs ! i)\<lparr> ci_isHuman := True \<rparr>),
            map (\<lambda>civ. civ\<lparr> ci_isHuman := False \<rparr>) (take i allCivs @ drop (Suc i) allCivs))"
  using assms
  by (auto simp: cityMatch_def identifyPlayer_def Let_def split: option.splits if_splits)

lemma identifyPlayer_fallback:
  assumes "cityMatch allCivs info = None"
  shows "identifyPlayer allCivs info =
           (if allCivs = [] then None else Some (hd allCivs),
            map (\<lambda>civ. civ\<lparr> ci_isHuman := False \<rparr>) (tl allCivs))"
  using assms
  by (auto simp: cityMatch_def identifyPlayer_def Let_def split: option.splits if_splits)

lemma identifyPlayer_others: "c \<in> set (snd (identifyPlayer allCivs info)) \<Longrightarrow> \<not> ci_isHuman c"
  by (auto simp: identifyPlayer_def Let_def)

lemma no_human_others: "filter ci_isHuman (snd (identifyPlayer allCivs info)) = []"
  using identifyPlayer_others by (auto simp: filter_empty_conv)

lemma extractedCivs_humans: "length (filter ci_isHuman (extractedCivs (identifyPlayer allCivs info))) \<le> 1"
  using no_human_others [of allCivs info]
  by (cases "fst (identifyPlayer allCivs info)") (simp_all add: extractedCivs_def)

lemma emptyRosterSave_magic: "toStringAscii (substring emptyRosterSave 0 4) = ''CIV6''"
  by code_simp

lemma emptyRosterSave_markers:
  "readMarkerValue asciiText emptyRosterSave GAME_TURN = Inr None"
  "readMarkerValue asciiText emptyRosterSave GAME_SPEED = Inr None"
  "readMarkerValue asciiText emptyRosterSave MAP_SIZE = Inr None"
  by (simp_all add: readMarkerValue_def indexOf_def startsWith_def emptyRosterSave_def bytesOf_def
      GAME_TURN_def GAME_SPEED_def MAP_SIZE_def)

lemma emptyRosterSave_header:
  "substring emptyRosterSave 0 (min (length emptyRosterSave) 150000) = emptyRosterSave"
  by (simp add: substring_def emptyRosterSave_def bytesOf_def)

lemma emptyRosterSave_civs: "extractCivsFromHeader (asciiText emptyRosterSave) = (None, [], [])"
  by code_simp

lemma emptyRosterSave_inflate: "decompressGameData noInflate emptyRosterSave = None"
  by (simp add: decompressGameData_def indexOf_def emptyRosterSave_def bytesOf_def)

text \<open>
  Claim C7, as stated, fails: on the save file that is its magic bytes alone
  \<open>parseSaveFile\<close> succeeds with an empty roster, so no extracted record has
  \<open>isHuman = true\<close>.
\<close>

theorem parseSaveFile_human_counterexample:
  "parseSaveFile asciiText noInflate ''save'' emptyRosterSave =
     Inr \<lparr> gs_leader = ''Unknown'', gs_civilization = ''Unknown'', gs_turn = 0,
           gs_mapSize = ''Unknown'', gs_gameSpeed = ''Standard'', gs_otherCivs = [],
           gs_cityStates = [], gs_technologies = None, gs_civics = None, gs_wonders = None,
           gs_greatPeople = None, gs_playerCities = None \<rparr>
   \<and> extractedCivs (identifyPlayer (saveCivs asciiText emptyRosterSave)
        (saveInfo asciiText noInflate emptyRosterSave)) = []"
proof (intro conjI)
  show "parseSaveFile asciiText noInflate ''save'' emptyRosterSave =
     Inr \<lparr> gs_leader = ''Unknown'', gs_civilization = ''Unknown'', gs_turn = 0,
           gs_mapSize = ''Unknown'', gs_gameSpeed = ''Standard'', gs_otherCivs = [],
           gs_cityStates = [], gs_technologies = None, gs_civics = None, gs_wonders = None,
           gs_greatPeople = None, gs_playerCities = None \<rparr>"
    by (simp add: parseSaveFile_def Let_def emptyRosterSave_magic emptyRosterSave_markers
        emptyRosterSave_header emptyRosterSave_civs emptyRosterSave_inflate matchAutoSave_save
        headerCivs_def identifyPlayer_empty)
  show "extractedCivs (identifyPlayer (saveCivs asciiText emptyRosterSave)
        (saveInfo asciiText noInflate emptyRosterSave)) = []"
    by (simp add: saveCivs_def saveInfo_def emptyRosterSave_header emptyRosterSave_civs
        emptyRosterSave_inflate headerCivs_def identifyPlayer_empty extractedCivs_def)
qed

text \<open>
  Claim C7, amended. When \<open>parseSaveFile\<close> succeeds, its other civilizations are those of
  the identification of the player on the roster of the header, and none of them has
  \<open>isHuman = true\<close>, so at most one extracted record has. When the decoded city names
  match a civilization of the roster through the city table, that civilization is the
  player, with \<open>isHuman = true\<close>, and exactly one extracted record has it; otherwise the
  player is the first civilization of the roster, if there is one, and the others are
  the rest.
\<close>

theorem parseSaveFile_human_player:
  "(parseSaveFile utf8 unzipSync fileName buffer = Inr gs \<longrightarrow>
      gs_otherCivs gs = snd (identifyPlayer (saveCivs utf8 buffer) (saveInfo utf8 unzipSync buffer))
      \<and> gs_civilization gs =
           (case fst (identifyPlayer (saveCivs utf8 buffer) (saveInfo utf8 unzipSync buffer)) of
              Some p \<Rightarrow> if ci_civilization p = [] then ''Unknown'' else ci_civilization p
            | None \<Rightarrow> ''Unknown''))
   \<and> (\<forall>c \<in> set (snd (identifyPlayer allCivs info)). \<not> ci_isHuman c)
   \<and> length (filter ci_isHuman (extractedCivs (identifyPlayer allCivs info))) \<le> 1
   \<and> (cityMatch allCivs info = Some i \<longrightarrow>
        i < length allCivs
        \<and> identifyPlayer allCivs info =
            (Some ((allCivs ! i)\<lparr> ci_isHuman := True \<rparr>),
             map (\<lambda>civ. civ\<lparr> ci_isHuman := False \<rparr>) (take i allCivs @ drop (Suc i) allCivs))
        \<and> length (filter ci_isHuman (extractedCivs (identifyPlayer allCivs info))) = 1)
   \<and> (cityMatch allCivs info = None \<longrightarrow>
        identifyPlayer allCivs info =
          (if allCivs = [] then None else Some (hd allCivs),
           map (\<lambda>civ. civ\<lparr> ci_isHuman := False \<rparr>) (tl allCivs)))"
proof (intro conjI impI ballI)
  assume "parseSaveFile utf8 unzipSync fileName buffer = Inr gs"
  from parseSaveFile_civs [OF this]
  show "gs_otherCivs gs = snd (identifyPlayer (saveCivs utf8 buffer) (saveInfo utf8 unzipSync buffer))"
    and "gs_civilization gs =
           (case fst (identifyPlayer (saveCivs utf8 buffer) (saveInfo utf8 unzipSync buffer)) of
              Some p \<Rightarrow> if ci_civilization p = [] then ''Unknown'' else ci_civilization p
            | None \<Rightarrow> ''Unknown'')"
    by simp_all
next
  fix c assume "c \<in> set (snd (identifyPlayer allCivs info))"
  then show "\<not> ci_isHuman c" by (rule identifyPlayer_others)
next
  show "length (filter ci_isHuman (extractedCivs (identifyPlayer allCivs info))) \<le> 1"
    by (rule extractedCivs_humans)
next
  assume m: "cityMatch allCivs info = Some i"
  then show "i < length allCivs"
    by (auto simp: cityMatch_def split: option.splits if_splits dest: findIndex_Some)
  show r: "identifyPlayer allCivs info =
            (Some ((allCivs ! i)\<lparr> ci_isHuman := True \<rparr>),
             map (\<lambda>civ. civ\<lparr> ci_isHuman := False \<rparr>) (take i allCivs @ drop (Suc i) allCivs))"
    by (rule identifyPlayer_matched [OF m])
  show "length (filter ci_isHuman (extractedCivs (identifyPlayer allCivs info))) = 1"
    using no_human_others [of allCivs info] by (simp add: r extractedCivs_def)
next
  assume "cityMatch allCivs info = None"
  then show "identifyPlayer allCivs info =
          (if allCivs = [] then None else Some (hd allCivs),
           map (\<lambda>civ. civ\<lparr> ci_isHuman := False \<rparr>) (tl allCivs))"
    by (rule identifyPlayer_fallback)
qed

lemma romeSave_magic: "toStringAscii (substring romeSave 0 4) = ''CIV6''"
  by code_simp

lemma romeSave_text: "asciiText romeSave = romeSaveText"
  by (simp add: romeSave_def asciiText_bytesOf)

lemma romeSaveText_civs:
  "extractCivsFromHeader romeSaveText =
     (Some \<lparr> ci_leader = ''Trajan'', ci_civilization = ''Rome'', ci_type = full_civ,
             ci_isHuman = True \<rparr>, [], [])"
  by code_simp

lemma romeSave_markers:
  "readMarkerValue asciiText romeSave GAME_TURN = Inr None"
  "readMarkerValue asciiText romeSave GAME_SPEED = Inr None"
  "readMarkerValue asciiText romeSave MAP_SIZE = Inr None"
  by (simp_all add: readMarkerValue_def indexOf_def startsWith_def romeSave_def romeSaveText_def
      bytesOf_def GAME_TURN_def GAME_SPEED_def MAP_SIZE_def)

lemma romeSave_header: "substring romeSave 0 (min (length romeSave) 150000) = romeSave"
  by (simp add: substring_def romeSave_def romeSaveText_def bytesOf_def)

lemma romeSave_civs:
  "extractCivsFromHeader (asciiText romeSave) =
     (Some \<lparr> ci_leader = ''Trajan'', ci_civilization = ''Rome'', ci_type = full_civ,
             ci_isHuman = True \<rparr>, [], [])"
  by (simp only: romeSave_text romeSaveText_civs)

lemma romeSave_inflate: "decompressGameData noInflate romeSave = None"
  by (simp add: decompressGameData_def indexOf_def romeSave_def romeSaveText_def bytesOf_def)

lemma romeSave_parses: "\<exists>gs. parseSaveFile asciiText noInflate ''save'' romeSave = Inr gs"
  by (simp add: parseSaveFile_def Let_def romeSave_magic romeSave_markers)

lemma romeSave_roster:
  "saveCivs asciiText romeSave =
     [\<lparr> ci_leader = ''Trajan'', ci_civilization = ''Rome'', ci_type = full_civ, ci_isHuman = True \<rparr>]"
  "saveInfo asciiText noInflate romeSave = None"
  by (simp_all add: saveCivs_def saveInfo_def romeSave_header romeSave_civs romeSave_inflate
      headerCivs_def)

lemma romeVietnam_match:
  "cityMatch romeVietnam (Some hanoiInfo) = Some 1"
  "cityMatch romeVietnam None = None"
  "cityMatch [\<lparr> ci_leader = ''Trajan'', ci_civilization = ''Rome'', ci_type = full_civ,
      ci_isHuman = True \<rparr>] None = None"
  by code_simp+

theorem parseSaveFile_human_player_witness:
  "(\<exists>gs. parseSaveFile asciiText noInflate ''save'' romeSave = Inr gs
         \<and> gs_civilization gs = ''Rome'' \<and> gs_otherCivs gs = [])
   \<and> cityMatch romeVietnam (Some hanoiInfo) = Some 1
   \<and> map ci_civilization (extractedCivs (identifyPlayer romeVietnam (Some hanoiInfo)))
        = [''Vietnam'', ''Rome'']
   \<and> map ci_isHuman (extractedCivs (identifyPlayer romeVietnam (Some hanoiInfo))) = [True, False]
   \<and> cityMatch romeVietnam None = None
   \<and> map ci_civilization (extractedCivs (identifyPlayer romeVietnam None)) = [''Rome'', ''Vietnam'']"
proof -
  obtain gs where gs: "parseSaveFile asciiText noInflate ''save'' romeSave = Inr gs"
    using romeSave_parses by blast
  have fb: "identifyPlayer (saveCivs asciiText romeSave) (saveInfo asciiText noInflate romeSave) =
      (Some \<lparr> ci_leader = ''Trajan'', ci_civilization = ''Rome'', ci_type = full_civ,
              ci_isHuman = True \<rparr>, [])"
    using parseSaveFile_human_player [of asciiText noInflate "''save''" romeSave gs
        "saveCivs asciiText romeSave" "saveInfo asciiText noInflate romeSave" 0]
      romeVietnam_match(3)
    by (simp add: romeSave_roster)
  have a: "gs_civilization gs = ''Rome'' \<and> gs_otherCivs gs = []"
    using parseSaveFile_human_player [of asciiText noInflate "''save''" romeSave gs "[]" None 0] gs
    by (simp add: fb)
  have m: "identifyPlayer romeVietnam (Some hanoiInfo) =
      (Some ((romeVietnam ! 1)\<lparr> ci_isHuman := True \<rparr>),
       map (\<lambda>civ. civ\<lparr> ci_isHuman := False \<rparr>) (take 1 romeVietnam @ drop (Suc 1) romeVietnam))"
    using parseSaveFile_human_player [of asciiText noInflate "''save''" romeSave gs
        romeVietnam "Some hanoiInfo" 1] romeVietnam_match(1)
    by blast
  have f: "identifyPlayer romeVietnam None =
      (if romeVietnam = [] then None else Some (hd romeVietnam),
       map (\<lambda>civ. civ\<lparr> ci_isHuman := False \<rparr>) (tl romeVietnam))"
    using parseSaveFile_human_player [of asciiText noInflate "''save''" romeSave gs
        romeVietnam None 0] romeVietnam_match(2)
    by blast
  have b: "map ci_civilization (extractedCivs (identifyPlayer romeVietnam (Some hanoiInfo)))
        = [''Vietnam'', ''Rome'']"
    "map ci_isHuman (extractedCivs (identifyPlayer romeVietnam (Some hanoiInfo))) = [True, False]"
    by (simp_all add: m extractedCivs_def) (simp_all add: romeVietnam_def)
  have c: "map ci_civilization (extractedCivs (identifyPlayer romeVietnam None)) = [''Rome'', ''Vietnam'']"
    by (simp add: f extractedCivs_def) (simp add: romeVietnam_def)
  show ?thesis
    using gs a b c romeVietnam_match(1,2) by blast
qed


end
